theory Spec2Isabelle
  imports Complex_Main "HOL-Library.AList" "HOL-Library.Word"
begin

section \<open>Shared state (Globals.py)\<close>

text \<open>
  The module-level dictionaries of \<^verbatim>\<open>Globals.py\<close>. A Python dict keeps its keys unique
  and in insertion order; it is an association list here, read with \<open>map_of\<close>, written
  with \<open>AList.update\<close> (in place for a present key, at the end for a new one) and
  shrunk with \<open>AList.delete\<close>. The connect and disconnect intents are the strings
  \<^verbatim>\<open>'add'\<close> and \<^verbatim>\<open>'remove'\<close> of the source. The Python \<^verbatim>\<open>logging\<close> module is the field
  \<open>log_entries\<close>: one entry per call of \<^verbatim>\<open>logging.exception\<close>.
\<close>

type_synonym ('k, 'v) dict = "('k \<times> 'v) list"

text \<open>
  The exceptions the modelled code can raise. \<open>NonFiniteRound\<close> stands for the
  \<^verbatim>\<open>ValueError\<close> or \<^verbatim>\<open>OverflowError\<close> of \<^verbatim>\<open>round\<close> on a NaN or an infinity.
\<close>

datatype py_error =
  KeyError | IndexError | ValueError | BleakError | BadSignalWarning | NonFiniteRound

definition error_name :: "py_error \<Rightarrow> string" where
  "error_name e =
     (case e of KeyError \<Rightarrow> ''KeyError'' | IndexError \<Rightarrow> ''IndexError''
      | ValueError \<Rightarrow> ''ValueError'' | BleakError \<Rightarrow> ''BleakError''
      | BadSignalWarning \<Rightarrow> ''BadSignalWarning'' | NonFiniteRound \<Rightarrow> ''NonFiniteRound'')"

subsection \<open>Python sequences\<close>

definition py_index :: "'a list \<Rightarrow> int \<Rightarrow> py_error + 'a" where
  \<comment> \<open>\<^verbatim>\<open>xs[i]\<close>: \<^verbatim>\<open>xs[-k]\<close> is the \<open>k\<close>-th element from the end; raises outside the list\<close>
  "py_index xs i =
     (if 0 \<le> i
      then (if nat i < length xs then Inr (xs ! nat i) else Inl IndexError)
      else (if nat (- i) \<le> length xs then Inr (xs ! (length xs - nat (- i)))
            else Inl IndexError))"

definition py_slice :: "'a list \<Rightarrow> nat \<Rightarrow> nat \<Rightarrow> 'a list" where
  \<comment> \<open>\<^verbatim>\<open>xs[a:b]\<close> for \<open>0 \<le> a\<close> and \<open>0 \<le> b\<close>: clamped to the list, never raises.\<close>
  "py_slice xs a b = take (b - a) (drop a xs)"

definition last_n :: "nat \<Rightarrow> 'a list \<Rightarrow> 'a list" where
  \<comment> \<open>\<^verbatim>\<open>xs[-n:]\<close> for \<open>n > 0\<close>: the last \<open>n\<close> elements, all of them when there are fewer.\<close>
  "last_n n xs = drop (length xs - n) xs"

definition py_last :: "'a list \<Rightarrow> py_error + 'a" where
  \<comment> \<open>\<^verbatim>\<open>xs[-1]\<close>\<close>
  "py_last xs = (if xs = [] then Inl IndexError else Inr (last xs))"

definition dict_append :: "('k \<rightharpoonup> 'v list) \<Rightarrow> 'k \<Rightarrow> 'v \<Rightarrow> ('k \<rightharpoonup> 'v list)" where
  \<comment> \<open>\<^verbatim>\<open>if k not in m: m[k] = [v]  else: m[k].append(v)\<close>\<close>
  "dict_append m k v = (case m k of None \<Rightarrow> m(k \<mapsto> [v]) | Some vs \<Rightarrow> m(k \<mapsto> vs @ [v]))"

fun collect :: "(py_error + 'a) list \<Rightarrow> py_error + 'a list" where
  \<comment> \<open>the results of a loop body run in order; the first exception ends the loop\<close>
  "collect [] = Inr []"
| "collect (Inl e # rs) = Inl e"
| "collect (Inr x # rs) = (case collect rs of Inl e \<Rightarrow> Inl e | Inr xs \<Rightarrow> Inr (x # xs))"

definition py_round :: "real \<Rightarrow> int" where
  \<comment> \<open>\<^verbatim>\<open>round(x)\<close> with one argument: to the nearest integer, a tie to the even one\<close>
  "py_round x =
     (let f = \<lfloor>x\<rfloor>; r = x - of_int f
      in if r < 1 / 2 then f else if 1 / 2 < r then f + 1
         else if even f then f else f + 1)"

record raw_sample =
  ts :: int
  values_of :: "(string, int list) dict"

record datapoint =
  dp_ts :: int
  firmwareVersion :: real
  batteryPercentage :: real
  temperature :: real
  heartrate :: int
  respirationRate :: real
  bloodOxygenation :: int
  activityLevel :: int

text \<open>
  \<^verbatim>\<open>processed_data\<close> holds datapoints when the DSP stage runs and raw samples in
  pass-through mode; Python does not tell them apart, the model tags them.
\<close>

datatype item = Raw raw_sample | Processed datapoint

record globals =
  connected_devices :: "(string, string) dict"
  mac_address_update :: "(string, string) dict"
  patient_mapping :: "(string, string) dict"
  unprocessed_data :: "(string, raw_sample list) dict"
  processed_data :: "(string, item list) dict"
  log_entries :: "string list"

section \<open>Mapping controller (Mapping.py)\<close>

definition disconnect_update :: "string \<Rightarrow> globals \<Rightarrow> globals" where
  "disconnect_update mac_address g =
     (let g1 = (if mac_address \<noteq> ''disconnected''
                then g\<lparr>mac_address_update :=
                       AList.update mac_address ''remove'' (mac_address_update g)\<rparr>
                else g)
      in if mac_address \<in> fst ` set (patient_mapping g1)
         then g1\<lparr>patient_mapping := AList.delete mac_address (patient_mapping g1)\<rparr>
         else g1)"

text \<open>One round of the loop \<^verbatim>\<open>for previous_address in to_delete\<close>.\<close>

definition delete_previous :: "string \<Rightarrow> globals \<Rightarrow> globals" where
  "delete_previous previous_address g =
     g\<lparr>patient_mapping := AList.delete previous_address (patient_mapping g),
       mac_address_update := AList.update previous_address ''remove'' (mac_address_update g)\<rparr>"

definition connect_update :: "string \<Rightarrow> string \<Rightarrow> globals \<Rightarrow> globals" where
  "connect_update patient_name mac_address g =
     (let g1 =
        (if patient_name \<in> snd ` set (patient_mapping g)
         then (let to_delete =
                     filter (\<lambda>address. map_of (patient_mapping g) address = Some patient_name)
                       (map fst (patient_mapping g))
               in fold delete_previous to_delete g)
         else g)
      in g1\<lparr>patient_mapping := AList.update mac_address patient_name (patient_mapping g1),
            mac_address_update := AList.update mac_address ''add'' (mac_address_update g1)\<rparr>)"

section \<open>BLE supervisor (Ble.py)\<close>

type_synonym byte = "8 word"

definition notify_handles :: "(nat, string) dict" where
  "notify_handles = [(2, ''imu''), (6, ''ppg''), (25, ''audio''), (29, ''voltage''),
                     (32, ''current''), (41, ''temperature'')]"

definition bytes_per_int :: "(string, nat) dict" where
  "bytes_per_int = [(''imu'', 2), (''audio'', 2), (''ppg'', 4), (''temperature'', 4),
                    (''voltage'', 4), (''current'', 4)]"

text \<open>
  \<^verbatim>\<open>int.from_bytes(bytes, byteorder='little', signed=...)\<close>: the first byte is the least
  significant; with \<^verbatim>\<open>signed=True\<close> a value with the top bit set has \<open>2 ^ (8 * n)\<close>
  taken off.
\<close>

fun le_value :: "byte list \<Rightarrow> int" where
  "le_value [] = 0"
| "le_value (b # bs) = uint b + 256 * le_value bs"

definition int_from_bytes :: "byte list \<Rightarrow> bool \<Rightarrow> int" where
  "int_from_bytes bs is_signed =
     (let u = le_value bs; n = length bs
      in if is_signed \<and> 0 < n \<and> 2 ^ (8 * n - 1) \<le> u then u - 2 ^ (8 * n) else u)"

definition convert_data :: "string \<Rightarrow> byte list \<Rightarrow> py_error + int list" where
  "convert_data char data =
     (let is_signed = (char = ''ppg'' \<or> char = ''imu'')
      in case map_of bytes_per_int char of
           None \<Rightarrow> Inl KeyError
         | Some step \<Rightarrow>
             Inr (map (\<lambda>index. int_from_bytes
                                 (py_slice data (step * index) (step * (index + 1))) is_signed)
                    [0 ..< length data div step]))"

text \<open>
  The notification callback of a connection worker bound to \<open>address\<close>;
  \<open>timestamp\<close> is the value of \<^verbatim>\<open>round(time.time() * 1000)\<close> at the call.
\<close>

definition callback :: "string \<Rightarrow> int \<Rightarrow> nat \<Rightarrow> byte list \<Rightarrow> globals \<Rightarrow> py_error + globals" where
  "callback address timestamp sender data g =
     (case map_of notify_handles sender of
        None \<Rightarrow> Inl KeyError
      | Some char \<Rightarrow>
          (case convert_data char data of
             Inl e \<Rightarrow> Inl e
           | Inr converted_data \<Rightarrow>
               (let sample = \<lparr>ts = timestamp, values_of = [(char, converted_data)]\<rparr>
                in case map_of (unprocessed_data g) address of
                     None \<Rightarrow>
                       Inr (g\<lparr>unprocessed_data :=
                              AList.update address [sample] (unprocessed_data g)\<rparr>)
                   | Some samples \<Rightarrow>
                       Inr (g\<lparr>unprocessed_data :=
                              AList.update address (samples @ [sample]) (unprocessed_data g)\<rparr>))))"

text \<open>
  The link is outside the program: the outcome of each call on the device is an argument,
  \<open>None\<close> (or \<open>Inr\<close>) when the call returns and the exception it raises otherwise.
  \<open>version_read\<close> is the firmware string read from handle 36 and decoded.
\<close>

definition add_connected :: "(py_error + string) \<Rightarrow> string \<Rightarrow> globals \<Rightarrow> py_error + globals" where
  "add_connected version_read address g =
     (case version_read of
        Inr firmware_version \<Rightarrow>
          Inr (g\<lparr>connected_devices :=
                 AList.update address firmware_version (connected_devices g)\<rparr>)
      | Inl e \<Rightarrow>
          if e = KeyError \<or> e = BleakError
          then Inr (g\<lparr>log_entries := log_entries g @
                                   [address @ '': unable to read firmware version'']\<rparr>)
          else Inl e)"

fun stop_notifications ::
  "(nat \<Rightarrow> py_error option) \<Rightarrow> string \<Rightarrow> (nat \<times> string) list \<Rightarrow> globals \<Rightarrow> py_error + globals"
where
  "stop_notifications stop_notify address [] g = Inr g"
| "stop_notifications stop_notify address ((handle, name) # hs) g =
     (case stop_notify handle of
        None \<Rightarrow> stop_notifications stop_notify address hs g
      | Some e \<Rightarrow>
          if e = KeyError \<or> e = BleakError
          then stop_notifications stop_notify address hs
                 (g\<lparr>log_entries := log_entries g @
                        [address @ '' : '' @ name @ '' notifications could not be stopped'']\<rparr>)
          else Inl e)"

definition disconnect ::
  "(nat \<Rightarrow> py_error option) \<Rightarrow> py_error option \<Rightarrow> string \<Rightarrow> globals \<Rightarrow> py_error + globals"
where
  "disconnect stop_notify device_disconnect address g =
     (case stop_notifications stop_notify address notify_handles g of
        Inl e \<Rightarrow> Inl e
      | Inr g1 \<Rightarrow>
          (case (case device_disconnect of
                   None \<Rightarrow> Inr g1
                 | Some e \<Rightarrow>
                     if e = BleakError
                     then Inr (g1\<lparr>log_entries := log_entries g1 @
                                        [address @ '' unexpected disconnection'']\<rparr>)
                     else Inl e) of
             Inl e \<Rightarrow> Inl e
           | Inr g2 \<Rightarrow>
               if address \<in> fst ` set (mac_address_update g2)
               then Inr (g2\<lparr>mac_address_update :=
                             AList.delete address (mac_address_update g2)\<rparr>)
               else Inl KeyError))"

text \<open>
  One round of \<^verbatim>\<open>invalid_remove_request_task\<close> after its sleep: the first
  \<^verbatim>\<open>'remove'\<close> request is dropped when its address is no key of \<^verbatim>\<open>connected_devices\<close>.
\<close>

definition get_key_from_value :: "('k, 'v) dict \<Rightarrow> 'v \<Rightarrow> py_error + 'k" where
  "get_key_from_value d val =
     (case filter (\<lambda>kv. snd kv = val) d of [] \<Rightarrow> Inl IndexError | kv # _ \<Rightarrow> Inr (fst kv))"

definition invalid_remove_request :: "globals \<Rightarrow> py_error + globals" where
  "invalid_remove_request g =
     (if ''remove'' \<in> snd ` set (mac_address_update g)
      then (case get_key_from_value (mac_address_update g) ''remove'' of
              Inl e \<Rightarrow> Inl e
            | Inr address \<Rightarrow>
                if address \<notin> fst ` set (connected_devices g)
                then Inr (g\<lparr>log_entries := log_entries g @
                                 [''invalid remove request from '' @ address],
                              mac_address_update :=
                                 AList.delete address (mac_address_update g)\<rparr>)
                else Inr g)
      else Inr g)"

section \<open>DSP stage (DataProcessing.py)\<close>

subsection \<open>Arrays, floats and the libraries\<close>

text \<open>
  A numpy array of shape (N, 3) or (N, 6) is a list of rows, a row a tuple.
  \<^verbatim>\<open>np.reshape(val, (-1, 3))\<close> raises when the length is no multiple of 3.
\<close>

type_synonym 'a row3 = "'a \<times> 'a \<times> 'a"
type_synonym 'a row6 = "'a \<times> 'a \<times> 'a \<times> 'a \<times> 'a \<times> 'a"

fun rows3 :: "'a list \<Rightarrow> 'a row3 list" where
  "rows3 (a # b # c # xs) = (a, b, c) # rows3 xs"
| "rows3 _ = []"

fun rows6 :: "'a list \<Rightarrow> 'a row6 list" where
  "rows6 (a # b # c # d # e # f # xs) = (a, b, c, d, e, f) # rows6 xs"
| "rows6 _ = []"

definition reshape3 :: "'a list \<Rightarrow> py_error + 'a row3 list" where
  "reshape3 val = (if length val mod 3 = 0 then Inr (rows3 val) else Inl ValueError)"

definition reshape6 :: "'a list \<Rightarrow> py_error + 'a row6 list" where
  "reshape6 val = (if length val mod 6 = 0 then Inr (rows6 val) else Inl ValueError)"

definition red :: "'a row3 \<Rightarrow> 'a" where "red r = fst r"
definition ir :: "'a row3 \<Rightarrow> 'a" where "ir r = fst (snd r)"
definition green :: "'a row3 \<Rightarrow> 'a" where "green r = snd (snd r)"

definition col3 :: "'a row6 \<Rightarrow> 'a" where "col3 r = fst (snd (snd (snd r)))"
definition col4 :: "'a row6 \<Rightarrow> 'a" where "col4 r = fst (snd (snd (snd (snd r))))"
definition col5 :: "'a row6 \<Rightarrow> 'a" where "col5 r = snd (snd (snd (snd (snd r))))"

text \<open>
  Floats are real numbers here: rounding error, overflow and underflow of the 64-bit
  arithmetic are not modelled. What a numpy division by zero yields is: it raises
  nothing, the result is an infinity or a NaN (signs left out).
\<close>

datatype npfloat = Finite real | Infinite | NaN

definition np_div :: "npfloat \<Rightarrow> npfloat \<Rightarrow> npfloat" where
  "np_div x y =
     (case x of
        NaN \<Rightarrow> NaN
      | Infinite \<Rightarrow> (case y of Finite b \<Rightarrow> Infinite | _ \<Rightarrow> NaN)
      | Finite a \<Rightarrow>
          (case y of
             NaN \<Rightarrow> NaN
           | Infinite \<Rightarrow> Finite 0
           | Finite b \<Rightarrow> if b \<noteq> 0 then Finite (a / b) else if a = 0 then NaN else Infinite))"

definition py_max :: "real list \<Rightarrow> py_error + real" where
  \<comment> \<open>\<^verbatim>\<open>max(xs)\<close>\<close>
  "py_max xs = (if xs = [] then Inl ValueError else Inr (Max (set xs)))"

definition np_argmax :: "real list \<Rightarrow> py_error + nat" where
  \<comment> \<open>\<^verbatim>\<open>np.argmax(xs)\<close>: the first index of the maximum\<close>
  "np_argmax xs =
     (if xs = [] then Inl ValueError
      else Inr (length (takeWhile (\<lambda>x. x \<noteq> Max (set xs)) xs)))"

text \<open>
  The signal libraries are outside the program and are arguments of the model:
  \<open>filtfilt_hr\<close> is \<^verbatim>\<open>butter(3, [0.7, 3.5], 'band', fs=100)\<close> followed by \<^verbatim>\<open>filtfilt\<close>,
  \<open>fft\<close> is \<^verbatim>\<open>scipy.fft.fft\<close>, and \<open>heartpy\<close> is \<^verbatim>\<open>hp.filter_signal\<close> followed by
  \<^verbatim>\<open>hp.process\<close>, which raises \<^verbatim>\<open>BadSignalWarning\<close> on a signal it cannot use.
\<close>

record measures =
  bpm :: real
  rmssd :: real
  breathingrate :: real

record libs =
  filtfilt_hr :: "real list \<Rightarrow> py_error + real list"
  fft :: "real list \<Rightarrow> py_error + complex list"
  heartpy :: "real list \<Rightarrow> py_error + measures"

subsection \<open>Module state\<close>

record dsp =
  duration :: "string \<rightharpoonup> int"
  current_ts :: "string \<rightharpoonup> int"
  local_data :: "raw_sample list"
  local_imu_raw :: "string \<rightharpoonup> int row6 list"
  local_imu_converted :: "string \<rightharpoonup> real row6 list"
  local_ppg :: "string \<rightharpoonup> int row3 list"
  local_temp :: "string \<rightharpoonup> real list"
  local_voltage :: "string \<rightharpoonup> int list"
  local_activity_level :: "string \<rightharpoonup> int list"
  local_battery_percentage :: "string \<rightharpoonup> real"
  local_HR :: "string \<rightharpoonup> int list"
  local_SPO2 :: "string \<rightharpoonup> int list"
  hp_HR :: "string \<rightharpoonup> real list"
  hp_RMSSD :: "string \<rightharpoonup> real list"
  hp_RR :: "string \<rightharpoonup> real list"

definition SAMPLING_FREQUENCY :: nat where "SAMPLING_FREQUENCY = 100"
definition SAMPLE_DURATION :: nat where "SAMPLE_DURATION = 20"
definition SAMPLE_LENGTH :: nat where "SAMPLE_LENGTH = SAMPLING_FREQUENCY * SAMPLE_DURATION"

definition xf :: "real list" where
  \<comment> \<open>\<^verbatim>\<open>fftfreq(SAMPLE_LENGTH, SAMPLING_PERIOD)[:SAMPLE_LENGTH // 2]\<close>\<close>
  "xf = map (\<lambda>k. real k / (real SAMPLE_LENGTH * (1 / real SAMPLING_FREQUENCY)))
          [0 ..< SAMPLE_LENGTH div 2]"

definition a_coeff :: real where "a_coeff = 1.5958422"
definition b_coeff :: real where "b_coeff = - 34.6596622"
definition c_coeff :: real where "c_coeff = 112.6898759"

text \<open>
  A step returns the exception it raised, if any, with the state at that moment: what
  was assigned before the exception stays assigned.
\<close>

type_synonym 's outcome = "py_error option \<times> 's"

definition then_do :: "('s \<Rightarrow> 's outcome) \<Rightarrow> ('s \<Rightarrow> 's outcome) \<Rightarrow> 's \<Rightarrow> 's outcome" where
  "then_do f g s = (case f s of (None, s') \<Rightarrow> g s' | (Some e, s') \<Rightarrow> (Some e, s'))"

fun for_each :: "('a \<Rightarrow> 's \<Rightarrow> 's outcome) \<Rightarrow> 'a list \<Rightarrow> 's \<Rightarrow> 's outcome" where
  "for_each body [] s = (None, s)"
| "for_each body (x # xs) s =
     (case body x s of (None, s') \<Rightarrow> for_each body xs s' | (Some e, s') \<Rightarrow> (Some e, s'))"

definition lookup_last :: "('k \<rightharpoonup> 'v list) \<Rightarrow> 'k \<Rightarrow> py_error + 'v" where
  \<comment> \<open>\<^verbatim>\<open>m[k][-1]\<close>\<close>
  "lookup_last m k = (case m k of None \<Rightarrow> Inl KeyError | Some xs \<Rightarrow> py_last xs)"

subsection \<open>The steps of the pipeline\<close>

definition trim_window ::
  "(dsp \<Rightarrow> string \<rightharpoonup> 'a list) \<Rightarrow> (((string \<rightharpoonup> 'a list) \<Rightarrow> (string \<rightharpoonup> 'a list)) \<Rightarrow> dsp \<Rightarrow> dsp) \<Rightarrow>
   nat \<Rightarrow> nat \<Rightarrow> string \<Rightarrow> dsp \<Rightarrow> dsp outcome"
where
  \<comment> \<open>\<^verbatim>\<open>if len(w[address]) > cap: w[address] = w[address][k:]\<close>\<close>
  "trim_window window window_update cap k address d =
     (case window d address of
        None \<Rightarrow> (Some KeyError, d)
      | Some xs \<Rightarrow>
          (None, if cap < length xs then window_update (\<lambda>m. m(address \<mapsto> drop k xs)) d else d))"

definition trim_voltage :: "string \<Rightarrow> dsp \<Rightarrow> dsp outcome" where
  "trim_voltage address d =
     (if local_voltage d address \<noteq> None
      then trim_window local_voltage local_voltage_update 200 100 address d
      else (None, d))"

definition delete_old_data :: "string \<Rightarrow> dsp \<Rightarrow> dsp outcome" where
  "delete_old_data address =
     then_do (trim_window local_ppg local_ppg_update 5000 4000 address)
    (then_do (trim_window local_imu_raw local_imu_raw_update 2000 1000 address)
    (then_do (trim_window local_temp local_temp_update 200 100 address)
    (then_do (trim_voltage address)
    (then_do (trim_window local_activity_level local_activity_level_update 200 100 address)
    (then_do (trim_window local_imu_converted local_imu_converted_update 2000 1000 address)
    (then_do (trim_window local_HR local_HR_update 200 100 address)
             (trim_window local_SPO2 local_SPO2_update 200 100 address)))))))"

definition split_value :: "string \<Rightarrow> string \<times> int list \<Rightarrow> dsp \<Rightarrow> dsp outcome" where
  "split_value address cv d =
     (let char = fst cv; val = snd cv
      in if char = ''ppg'' then
           (case reshape3 val of
              Inl e \<Rightarrow> (Some e, d)
            | Inr rows \<Rightarrow>
                (None, d\<lparr>local_ppg := (local_ppg d)(address \<mapsto>
                           (case local_ppg d address of None \<Rightarrow> rows | Some w \<Rightarrow> w @ rows))\<rparr>))
         else if char = ''imu'' then
           (case reshape6 val of
              Inl e \<Rightarrow> (Some e, d)
            | Inr rows \<Rightarrow>
                (None, d\<lparr>local_imu_raw := (local_imu_raw d)(address \<mapsto>
                           (case local_imu_raw d address of None \<Rightarrow> rows | Some w \<Rightarrow> w @ rows))\<rparr>))
         else if char = ''temperature'' then
           (case val of
              [] \<Rightarrow> (Some IndexError, d)
            | v # _ \<Rightarrow>
                (None, d\<lparr>local_temp := dict_append (local_temp d) address (real_of_int v / 200)\<rparr>))
         else if char = ''voltage'' then
           (case val of
              [] \<Rightarrow> (Some IndexError, d)
            | v # _ \<Rightarrow> (None, d\<lparr>local_voltage := dict_append (local_voltage d) address v\<rparr>))
         else (None, d))"

definition split_data :: "string \<Rightarrow> dsp \<Rightarrow> dsp outcome" where
  "split_data address d =
     (case for_each (\<lambda>datapoint. for_each (split_value address) (values_of datapoint))
             (local_data d) d of
        (None, d') \<Rightarrow> (None, d'\<lparr>local_data := []\<rparr>)
      | (Some e, d') \<Rightarrow> (Some e, d'))"

definition spo2_of :: "real \<Rightarrow> int" where
  \<comment> \<open>the last lines of \<^verbatim>\<open>ppg_analysis\<close>, from the ratio \<open>R\<close> on\<close>
  "spo2_of R =
     (let SPO2 = py_round (a_coeff * R\<^sup>2 + b_coeff * R + c_coeff)
      in if 100 < SPO2 then 100 else SPO2)"

definition ppg_analysis :: "libs \<Rightarrow> string \<Rightarrow> dsp \<Rightarrow> dsp outcome" where
  "ppg_analysis lib address d =
     (case local_ppg d address of
        None \<Rightarrow> (Some KeyError, d)
      | Some w \<Rightarrow>
     (let window = last_n SAMPLE_LENGTH w
      in case filtfilt_hr lib (map (real_of_int \<circ> red) window) of
        Inl e \<Rightarrow> (Some e, d)
      | Inr filtered_red \<Rightarrow>
     (case filtfilt_hr lib (map (real_of_int \<circ> ir) window) of
        Inl e \<Rightarrow> (Some e, d)
      | Inr filtered_ir \<Rightarrow>
     (case filtfilt_hr lib (map (real_of_int \<circ> green) window) of
        Inl e \<Rightarrow> (Some e, d)
      | Inr filtered_green \<Rightarrow>
     (case fft lib filtered_green of
        Inl e \<Rightarrow> (Some e, d)
      | Inr yf \<Rightarrow>
     (let plot_start = nat \<lfloor>0.75 * real SAMPLE_DURATION\<rfloor>;
          plot_stop = nat \<lfloor>3.5 * real SAMPLE_DURATION\<rfloor>
      in case np_argmax (map cmod (py_slice yf plot_start plot_stop)) of
        Inl e \<Rightarrow> (Some e, d)
      | Inr m \<Rightarrow>
     (let hr_index = m + plot_start
      in case py_index xf (int hr_index) of
        Inl e \<Rightarrow> (Some e, d)
      | Inr f \<Rightarrow>
     (let d1 = d\<lparr>local_HR := dict_append (local_HR d) address (py_round (60 * f))\<rparr>
      in case fft lib filtered_red of
        Inl e \<Rightarrow> (Some e, d1)
      | Inr yf_red \<Rightarrow>
     (case py_index (map cmod yf_red) (int hr_index) of
        Inl e \<Rightarrow> (Some e, d1)
      | Inr ac_red \<Rightarrow>
     (case fft lib filtered_ir of
        Inl e \<Rightarrow> (Some e, d1)
      | Inr yf_ir \<Rightarrow>
     (case py_index (map cmod yf_ir) (int hr_index) of
        Inl e \<Rightarrow> (Some e, d1)
      | Inr ac_ir \<Rightarrow>
     (let dc_red = real_of_int (sum_list (map red window)) / real SAMPLE_LENGTH;
          dc_ir = real_of_int (sum_list (map ir window)) / real SAMPLE_LENGTH
      in case np_div (np_div (Finite ac_red) (Finite dc_red))
                     (np_div (Finite ac_ir) (Finite dc_ir)) of
        Finite R \<Rightarrow>
          (None, d1\<lparr>local_SPO2 := dict_append (local_SPO2 d1) address (spo2_of R)\<rparr>)
      | _ \<Rightarrow> (Some NonFiniteRound, d1)))))))))))))"

definition scale_row :: "int row6 \<Rightarrow> real row6" where
  \<comment> \<open>a row times \<^verbatim>\<open>np.diag([0.0175, 0.0175, 0.0175, 0.000598, 0.000598, 0.000598])\<close>\<close>
  "scale_row r =
     (case r of (gx, gy, gz, ax, ay, az) \<Rightarrow>
        (real_of_int gx * 0.0175, real_of_int gy * 0.0175, real_of_int gz * 0.0175,
         real_of_int ax * 0.000598, real_of_int ay * 0.000598, real_of_int az * 0.000598))"

definition accel_norm :: "real row6 \<Rightarrow> real" where
  "accel_norm r = sqrt ((col3 r)\<^sup>2 + (col4 r)\<^sup>2 + (col5 r)\<^sup>2)"

definition abs_xl_of :: "real row6 list \<Rightarrow> py_error + real list" where
  \<comment> \<open>the loop \<^verbatim>\<open>for i in range(120): abs_xl[i] = np.sqrt(conv[-i, 3] ** 2 + ...)\<close>\<close>
  "abs_xl_of conv =
     collect (map (\<lambda>i. case py_index conv (- int i) of
                          Inl e \<Rightarrow> Inl e
                        | Inr row \<Rightarrow> Inr (accel_norm row))
                [0 ..< 120])"

definition imu_conversion :: "string \<Rightarrow> dsp \<Rightarrow> dsp outcome" where
  "imu_conversion address d =
     (case local_imu_raw d address of
        None \<Rightarrow> (Some KeyError, d)
      | Some raw \<Rightarrow>
     (let conv = map scale_row raw;
          d1 = d\<lparr>local_imu_converted := (local_imu_converted d)(address \<mapsto> conv)\<rparr>
      in case py_max (map col3 (last_n 120 conv)) of
        Inl e \<Rightarrow> (Some e, d1)
      | Inr xmx \<Rightarrow>
     (case py_max (map col4 (last_n 120 conv)) of
        Inl e \<Rightarrow> (Some e, d1)
      | Inr xmy \<Rightarrow>
     (case py_max (map col5 (last_n 120 conv)) of
        Inl e \<Rightarrow> (Some e, d1)
      | Inr xmz \<Rightarrow>
     (case abs_xl_of conv of
        Inl e \<Rightarrow> (Some e, d1)
      | Inr abs_xl \<Rightarrow>
     (case py_max abs_xl of
        Inl e \<Rightarrow> (Some e, d1)
      | Inr mx \<Rightarrow>
     (let activity = (if 12 < mx then 1 else 0)
      in (None, d1\<lparr>local_activity_level :=
                     dict_append (local_activity_level d1) address activity\<rparr>))))))))"

definition heartpy_analysis :: "libs \<Rightarrow> string \<Rightarrow> dsp \<Rightarrow> dsp outcome" where
  "heartpy_analysis lib address d =
     (case local_ppg d address of
        None \<Rightarrow> (Some KeyError, d)
      | Some w \<Rightarrow>
          (case heartpy lib (map (real_of_int \<circ> green) (last_n 2000 w)) of
             Inl e \<Rightarrow> (Some e, d)
           | Inr m \<Rightarrow>
               (None, d\<lparr>hp_HR := dict_append (hp_HR d) address (bpm m),
                         hp_RMSSD := dict_append (hp_RMSSD d) address (rmssd m),
                         hp_RR := dict_append (hp_RR d) address (breathingrate m)\<rparr>)))"

definition calc_battery_percentage :: "string \<Rightarrow> dsp \<Rightarrow> dsp outcome" where
  "calc_battery_percentage address d =
     (case local_voltage d address of
        None \<Rightarrow> (None, d)
      | Some vs \<Rightarrow>
          (case py_last vs of
             Inl e \<Rightarrow> (Some e, d)
           | Inr voltage \<Rightarrow>
               if 3650 < voltage
               then (None, d\<lparr>local_battery_percentage := (local_battery_percentage d)
                               (address \<mapsto> 12 + 0.176 * real_of_int (voltage - 3650))\<rparr>)
               else (None, d\<lparr>local_battery_percentage := (local_battery_percentage d)
                               (address \<mapsto> 0.0342 * real_of_int (voltage - 3650))\<rparr>)))"

subsection \<open>Emitting a datapoint and the loop\<close>

type_synonym system = "globals \<times> dsp"

definition on_dsp :: "(dsp \<Rightarrow> dsp outcome) \<Rightarrow> system \<Rightarrow> system outcome" where
  \<comment> \<open>a step that touches the module state of \<^verbatim>\<open>DataProcessing.py\<close> only\<close>
  "on_dsp f s = (case f (snd s) of (r, d') \<Rightarrow> (r, (fst s, d')))"

definition write_back :: "string \<Rightarrow> system \<Rightarrow> system outcome" where
  "write_back address s =
     (let g = fst s; d = snd s;
          battery_percentage =
            (case local_battery_percentage d address of Some b \<Rightarrow> b | None \<Rightarrow> 100)
      in case current_ts d address of
        None \<Rightarrow> (Some KeyError, s)
      | Some t \<Rightarrow>
     (case lookup_last (local_temp d) address of
        Inl e \<Rightarrow> (Some e, s)
      | Inr temp \<Rightarrow>
     (case lookup_last (local_HR d) address of
        Inl e \<Rightarrow> (Some e, s)
      | Inr hr \<Rightarrow>
     (case lookup_last (hp_RR d) address of
        Inl e \<Rightarrow> (Some e, s)
      | Inr rr \<Rightarrow>
     (case lookup_last (local_SPO2 d) address of
        Inl e \<Rightarrow> (Some e, s)
      | Inr spo2 \<Rightarrow>
     (case lookup_last (local_activity_level d) address of
        Inl e \<Rightarrow> (Some e, s)
      | Inr activity \<Rightarrow>
     (let sp_data = Processed
            \<lparr>dp_ts = t, firmwareVersion = 1.23, batteryPercentage = battery_percentage,
             temperature = temp, heartrate = hr, respirationRate = rr,
             bloodOxygenation = spo2, activityLevel = activity\<rparr>
      in case map_of (processed_data g) address of
           None \<Rightarrow>
             (None, (g\<lparr>processed_data := AList.update address [sp_data] (processed_data g)\<rparr>, d))
         | Some dps \<Rightarrow>
             (None, (g\<lparr>processed_data :=
                         AList.update address (dps @ [sp_data]) (processed_data g)\<rparr>, d)))))))))"

definition pipeline :: "libs \<Rightarrow> string \<Rightarrow> system \<Rightarrow> system outcome" where
  \<comment> \<open>the body of the \<^verbatim>\<open>try\<close> in \<^verbatim>\<open>data_processing\<close>\<close>
  "pipeline lib address =
     then_do (on_dsp (split_data address))
    (then_do (on_dsp (ppg_analysis lib address))
    (then_do (on_dsp (imu_conversion address))
    (then_do (on_dsp (calc_battery_percentage address))
    (then_do (on_dsp (heartpy_analysis lib address))
    (then_do (write_back address)
             (on_dsp (delete_old_data address)))))))"

definition process_address :: "libs \<Rightarrow> string \<times> raw_sample list \<Rightarrow> system \<Rightarrow> system outcome" where
  \<comment> \<open>one round of \<^verbatim>\<open>for address in Globals.unprocessed_data\<close>\<close>
  "process_address lib entry s =
     (let address = fst entry; batch = snd entry
      in case batch of
           [] \<Rightarrow> (Some IndexError, s)
         | first # _ \<Rightarrow>
             (let start = ts first; end_ts = ts (last batch);
                  d0 = (snd s)\<lparr>duration := (duration (snd s))(address \<mapsto> end_ts - start),
                                current_ts := (current_ts (snd s))(address \<mapsto> end_ts),
                                local_data := batch\<rparr>
              in case pipeline lib address (fst s, d0) of
                   (None, s') \<Rightarrow> (None, s')
                 | (Some e, s') \<Rightarrow>
                     if e = KeyError \<or> e = BadSignalWarning
                     then (None, ((fst s')\<lparr>log_entries := log_entries (fst s') @
                                               [address @ '' '' @ error_name e]\<rparr>, snd s'))
                     else (Some e, s')))"

definition data_processing :: "libs \<Rightarrow> system \<Rightarrow> system outcome" where
  \<comment> \<open>one round of the \<^verbatim>\<open>while True\<close> of \<^verbatim>\<open>data_processing\<close>, the sleep left out\<close>
  "data_processing lib s =
     (if unprocessed_data (fst s) \<noteq> []
      then (case for_each (process_address lib) (unprocessed_data (fst s)) s of
              (None, s') \<Rightarrow> (None, ((fst s')\<lparr>unprocessed_data := []\<rparr>, snd s'))
            | (Some e, s') \<Rightarrow> (Some e, s'))
      else (None, s))"

definition no_data_processing :: "globals \<Rightarrow> globals" where
  \<comment> \<open>one round of the \<^verbatim>\<open>while True\<close> of \<^verbatim>\<open>no_data_processing\<close>, the sleep left out\<close>
  "no_data_processing g =
     (if unprocessed_data g \<noteq> []
      then (let current_data = unprocessed_data g;
                g1 = g\<lparr>unprocessed_data := []\<rparr>
            in g1\<lparr>processed_data := map (\<lambda>kv. (fst kv, map Raw (snd kv))) current_data\<rparr>)
      else g)"

section \<open>Terms of the specification\<close>

subsection \<open>Decoding, as the specification words it\<close>

text \<open>
  The specification's reading of a payload, to compare \<open>convert_data\<close> with: the
  payload is cut into consecutive groups of the element width, and a group is the
  little-endian image of a machine word of that width, read as two's complement for
  \<^verbatim>\<open>ppg\<close> and \<^verbatim>\<open>imu\<close> and as unsigned otherwise.
\<close>

function spec_groups :: "nat \<Rightarrow> 'a list \<Rightarrow> 'a list list" where
  "spec_groups w xs =
     (if w = 0 \<or> length xs < w then [] else take w xs # spec_groups w (drop w xs))"
  by pat_completeness auto
termination
  by (relation "measure (\<lambda>(w, xs). length xs)") auto

definition spec_signed :: "string \<Rightarrow> bool" where
  "spec_signed char = (char = ''ppg'' \<or> char = ''imu'')"

definition spec_decode16 :: "bool \<Rightarrow> byte list \<Rightarrow> int" where
  "spec_decode16 two_compl bs =
     (let x = (word_rcat (rev bs) :: 16 word) in if two_compl then sint x else uint x)"

definition spec_decode32 :: "bool \<Rightarrow> byte list \<Rightarrow> int" where
  "spec_decode32 two_compl bs =
     (let x = (word_rcat (rev bs) :: 32 word) in if two_compl then sint x else uint x)"

definition spec_decode :: "nat \<Rightarrow> bool \<Rightarrow> byte list \<Rightarrow> int" where
  "spec_decode w two_compl bs = (if w = 2 then spec_decode16 two_compl bs else spec_decode32 two_compl bs)"

declare spec_groups.simps [simp del]

subsection \<open>Blood oxygen, as the specification words it\<close>

text \<open>
  The specification's terms for \<open>ppg_analysis\<close>: the DC component is the arithmetic
  mean of a column, the dominant heart-rate bin is the first bin of largest magnitude
  among the bins 15 to 69 of the transform of the green channel, and the SpO2 value is
  a quadratic in the ratio \<open>R\<close>.
\<close>

definition mean :: "int list \<Rightarrow> real" where
  "mean xs = real_of_int (sum_list xs) / real (length xs)"

definition dominant_bin :: "complex list \<Rightarrow> nat \<Rightarrow> bool" where
  "dominant_bin yf k \<longleftrightarrow>
     15 \<le> k \<and> k < 70 \<and> k < length yf \<and>
     (\<forall>j. 15 \<le> j \<and> j < k \<longrightarrow> cmod (yf ! j) < cmod (yf ! k)) \<and>
     (\<forall>j. 15 \<le> j \<and> j < 70 \<and> j < length yf \<longrightarrow> cmod (yf ! j) \<le> cmod (yf ! k))"

definition spo2_polynomial :: "real \<Rightarrow> real" where
  "spo2_polynomial R = 1.5958422 * R\<^sup>2 - 34.6596622 * R + 112.6898759"

section \<open>Terms of the statements\<close>

subsection \<open>Windows\<close>

text \<open>
  \<open>trimmed cap k\<close> names what one \<^verbatim>\<open>if len(w) > cap: w = w[k:]\<close> of \<open>delete_old_data\<close>
  makes of a window, and \<open>examined xs i\<close> the row that the index \<^verbatim>\<open>-i\<close> of the loop of
  \<open>imu_conversion\<close> reads.
\<close>

definition trimmed :: "nat \<Rightarrow> nat \<Rightarrow> 'a list \<Rightarrow> 'a list" where
  "trimmed cap k xs = (if cap < length xs then drop k xs else xs)"

definition examined :: "'a list \<Rightarrow> nat \<Rightarrow> 'a" where
  "examined xs i = (if i = 0 then xs ! 0 else xs ! (length xs - i))"

subsection \<open>What an iteration keeps\<close>

text \<open>
  \<open>grows m m'\<close>: every list stored in \<open>m\<close> is still in \<open>m'\<close>, possibly with more
  elements behind it. \<open>retained d d'\<close>: this holds for the rolling windows and the
  histories of every patch, so nothing stored in \<open>d\<close> has been dropped in \<open>d'\<close>
  (the converted imu window is left out: \<open>imu_conversion\<close> computes it anew from the
  raw one at every round).
  \<open>quiet s s'\<close>: in addition the shared state is untouched.
  \<open>battery_needs_voltage\<close>: only a patch with a voltage window has a battery percentage.
\<close>

definition grows :: "('k \<rightharpoonup> 'v list) \<Rightarrow> ('k \<rightharpoonup> 'v list) \<Rightarrow> bool" where
  "grows m m' \<longleftrightarrow> (\<forall>k xs. m k = Some xs \<longrightarrow> (\<exists>new. m' k = Some (xs @ new)))"

definition retained :: "dsp \<Rightarrow> dsp \<Rightarrow> bool" where
  "retained d d' \<longleftrightarrow>
     grows (local_ppg d) (local_ppg d') \<and> grows (local_imu_raw d) (local_imu_raw d') \<and>
     grows (local_temp d) (local_temp d') \<and> grows (local_voltage d) (local_voltage d') \<and>
     grows (local_activity_level d) (local_activity_level d') \<and>
     grows (local_HR d) (local_HR d') \<and> grows (local_SPO2 d) (local_SPO2 d') \<and>
     grows (hp_HR d) (hp_HR d') \<and> grows (hp_RMSSD d) (hp_RMSSD d') \<and>
     grows (hp_RR d) (hp_RR d')"

definition battery_needs_voltage :: "dsp \<Rightarrow> bool" where
  "battery_needs_voltage d \<longleftrightarrow>
     (\<forall>address. local_voltage d address = None \<longrightarrow> local_battery_percentage d address = None)"

definition quiet :: "system \<Rightarrow> system \<Rightarrow> bool" where
  "quiet s s' \<longleftrightarrow> fst s' = fst s \<and> retained (snd s) (snd s')"

definition stored :: "('k \<rightharpoonup> 'v list) \<Rightarrow> 'k \<Rightarrow> 'v list" where
  \<comment> \<open>the list a dict holds for a key, empty when the key is absent\<close>
  "stored m k = (case m k of None \<Rightarrow> [] | Some xs \<Rightarrow> xs)"

definition entered :: "string \<Rightarrow> raw_sample list \<Rightarrow> dsp \<Rightarrow> dsp" where
  \<comment> \<open>the assignments of \<open>process_address\<close> before its \<^verbatim>\<open>try\<close>\<close>
  "entered address batch d =
     d\<lparr>duration := (duration d)(address \<mapsto> ts (last batch) - ts (hd batch)),
       current_ts := (current_ts d)(address \<mapsto> ts (last batch)),
       local_data := batch\<rparr>"

section \<open>Scenarios\<close>

definition idle :: globals where
  "idle = \<lparr>connected_devices = [], mac_address_update = [], patient_mapping = [],
           unprocessed_data = [], processed_data = [], log_entries = []\<rparr>"

definition patient_bound :: globals where
  \<comment> \<open>patient P1 wears patch AA:01, patient P2 wears patch CC:03\<close>
  "patient_bound = idle\<lparr>patient_mapping := [(''AA:01'', ''P1''), (''CC:03'', ''P2'')]\<rparr>"

definition sample_a :: raw_sample where
  "sample_a = \<lparr>ts = 1000, values_of = [(''temperature'', [7400])]\<rparr>"

definition pending_point :: datapoint where
  "pending_point = \<lparr>dp_ts = 900, firmwareVersion = 1.23, batteryPercentage = 100,
     temperature = 37, heartrate = 72, respirationRate = 15, bloodOxygenation = 98,
     activityLevel = 0\<rparr>"

definition sink_behind :: globals where
  \<comment> \<open>a sample has arrived for AA:01 while two patches still have output waiting for the sink\<close>
  "sink_behind = idle\<lparr>unprocessed_data := [(''AA:01'', [sample_a])],
                       processed_data := [(''AA:01'', [Processed pending_point]),
                                          (''CC:03'', [Processed pending_point])]\<rparr>"

definition fresh :: dsp where
  "fresh = \<lparr>duration = Map.empty, current_ts = Map.empty, local_data = [],
            local_imu_raw = Map.empty, local_imu_converted = Map.empty,
            local_ppg = Map.empty, local_temp = Map.empty, local_voltage = Map.empty,
            local_activity_level = Map.empty, local_battery_percentage = Map.empty,
            local_HR = Map.empty, local_SPO2 = Map.empty,
            hp_HR = Map.empty, hp_RMSSD = Map.empty, hp_RR = Map.empty\<rparr>"

definition jolt_row :: "int row6" where "jolt_row = (0, 0, 0, 30000, 0, 0)"
definition still_row :: "int row6" where "still_row = (0, 0, 0, 0, 0, 0)"

definition steady_windows :: dsp where
  \<comment> \<open>patch AA:01 after some rounds: 2000 ppg rows, 120 imu rows at rest, short histories\<close>
  "steady_windows = fresh\<lparr>local_ppg := [''AA:01'' \<mapsto> replicate 2000 (1, 4, 1)],
      local_imu_raw := [''AA:01'' \<mapsto> replicate 120 still_row],
      local_imu_converted := [''AA:01'' \<mapsto> replicate 120 (0, 0, 0, 0, 0, 0)],
      local_activity_level := [''AA:01'' \<mapsto> [0]],
      local_HR := [''AA:01'' \<mapsto> [72]], local_SPO2 := [''AA:01'' \<mapsto> [98]]\<rparr>"

definition window_over_cap :: dsp where
  \<comment> \<open>the temperature window has just passed its cap of 200\<close>
  "window_over_cap = steady_windows\<lparr>local_temp := [''AA:01'' \<mapsto> replicate 201 37]\<rparr>"

definition long_temp :: dsp where
  \<comment> \<open>301 temperature samples wait for the trim\<close>
  "long_temp = steady_windows\<lparr>local_temp := [''AA:01'' \<mapsto> replicate 301 37]\<rparr>"

definition jolt_first :: dsp where
  \<comment> \<open>121 rows: the oldest one a jolt of 17.94 metres per second squared, the 120 rows after it at rest\<close>
  "jolt_first = fresh\<lparr>local_imu_raw := [''AA:01'' \<mapsto> jolt_row # replicate 120 still_row]\<rparr>"

definition toy_libs :: libs where
  \<comment> \<open>stand-ins for the libraries: a filter that passes everything, a transform that
      squares each sample, a pulse analysis that rejects every signal\<close>
  "toy_libs = \<lparr>filtfilt_hr = (\<lambda>xs. Inr xs),
               fft = (\<lambda>xs. Inr (map (\<lambda>x. complex_of_real (x * x)) xs)),
               heartpy = (\<lambda>xs. Inl BadSignalWarning)\<rparr>"

definition steady_ppg :: dsp where
  \<comment> \<open>2500 rows (red, ir, green): 500 older rows (9, 9, 9), then 2000 rows (1, 4, 1)\<close>
  "steady_ppg =
     fresh\<lparr>local_ppg := [''AA:01'' \<mapsto> replicate 500 (9, 9, 9) @ replicate 2000 (1, 4, 1)]\<rparr>"

definition after_trim :: dsp where
  \<comment> \<open>1001 rows (1, 4, 1), as a trim of the ppg window leaves it\<close>
  "after_trim = fresh\<lparr>local_ppg := [''AA:01'' \<mapsto> replicate 1001 (1, 4, 1)]\<rparr>"

definition round_split :: dsp where
  \<comment> \<open>\<open>steady_windows\<close> after the batch \<open>[sample_a]\<close> has been entered and split\<close>
  "round_split = steady_windows\<lparr>duration := [''AA:01'' \<mapsto> 0],
      current_ts := [''AA:01'' \<mapsto> 1000], local_temp := [''AA:01'' \<mapsto> [37]]\<rparr>"

definition round_ppg :: dsp where
  \<comment> \<open>then after \<open>ppg_analysis\<close> with \<open>toy_libs\<close>\<close>
  "round_ppg = round_split\<lparr>local_HR := [''AA:01'' \<mapsto> [72, 45]],
      local_SPO2 := [''AA:01'' \<mapsto> [98, 100]]\<rparr>"

definition round_imu :: dsp where
  \<comment> \<open>then after \<open>imu_conversion\<close>\<close>
  "round_imu = round_ppg\<lparr>local_imu_converted := [''AA:01'' \<mapsto> replicate 120 (0, 0, 0, 0, 0, 0)],
      local_activity_level := [''AA:01'' \<mapsto> [0, 0]]\<rparr>"

definition with_voltage :: "int \<Rightarrow> dsp" where
  \<comment> \<open>the latest voltage sample of patch AA:01 is \<open>v\<close> millivolts\<close>
  "with_voltage v = fresh\<lparr>local_voltage := [''AA:01'' \<mapsto> [3900, v]]\<rparr>"

section \<open>The mapping controller: connect events\<close>

lemma fold_delete_previous_pm:
  "patient_mapping (fold delete_previous ks g) =
     filter (\<lambda>e. fst e \<notin> set ks) (patient_mapping g)"
proof (induction ks arbitrary: g)
  case Nil
  show ?case by simp
next
  case (Cons k ks)
  have "patient_mapping (delete_previous k g) = filter (\<lambda>e. k \<noteq> fst e) (patient_mapping g)"
    by (simp add: delete_previous_def AList.delete_eq case_prod_unfold)
  with Cons show ?case by (auto intro: filter_cong)
qed

lemma fold_delete_previous_mu:
  "map_of (mac_address_update (fold delete_previous ks g)) k =
     (if k \<in> set ks then Some ''remove'' else map_of (mac_address_update g) k)"
proof (induction ks arbitrary: g)
  case Nil
  show ?case by simp
next
  case (Cons a ks)
  have "map_of (mac_address_update (delete_previous a g)) =
        (map_of (mac_address_update g))(a \<mapsto> ''remove'')"
    by (simp add: delete_previous_def AList.update_conv')
  with Cons show ?case by simp
qed

lemma fold_delete_previous_rest:
  "connected_devices (fold delete_previous ks g) = connected_devices g \<and>
   unprocessed_data (fold delete_previous ks g) = unprocessed_data g \<and>
   processed_data (fold delete_previous ks g) = processed_data g \<and>
   log_entries (fold delete_previous ks g) = log_entries g"
  by (induction ks arbitrary: g) (simp_all add: delete_previous_def)

lemma connect_update_pm:
  assumes "distinct (map fst (patient_mapping g))"
  shows "patient_mapping (connect_update patient_name mac_address g) =
         AList.update mac_address patient_name
           (filter (\<lambda>e. snd e \<noteq> patient_name) (patient_mapping g))"
proof (cases "patient_name \<in> snd ` set (patient_mapping g)")
  case False
  then have "filter (\<lambda>e. snd e \<noteq> patient_name) (patient_mapping g) = patient_mapping g"
    by (auto simp: filter_id_conv)
  with False show ?thesis by (simp add: connect_update_def)
next
  case True
  have "filter (\<lambda>e. fst e \<notin> {k \<in> fst ` set (patient_mapping g).
                    map_of (patient_mapping g) k = Some patient_name}) (patient_mapping g) =
        filter (\<lambda>e. snd e \<noteq> patient_name) (patient_mapping g)"
    using assms by (intro filter_cong) (auto simp: rev_image_eqI dest: eq_key_imp_eq_value)
  with True show ?thesis
    by (simp add: connect_update_def Let_def fold_delete_previous_pm)
qed

lemma connect_update_mu:
  "map_of (mac_address_update (connect_update patient_name mac_address g)) k =
     (if k = mac_address then Some ''add''
      else if map_of (patient_mapping g) k = Some patient_name then Some ''remove''
      else map_of (mac_address_update g) k)"
proof (cases "patient_name \<in> snd ` set (patient_mapping g)")
  case False
  then have "map_of (patient_mapping g) k \<noteq> Some patient_name"
    by (auto dest!: map_of_SomeD simp: rev_image_eqI)
  with False show ?thesis by (simp add: connect_update_def AList.update_conv')
next
  case True
  have "k \<in> fst ` set (patient_mapping g)" if "map_of (patient_mapping g) k = Some patient_name"
    using that by (auto dest!: map_of_SomeD simp: rev_image_eqI)
  with True show ?thesis
    by (auto simp add: connect_update_def Let_def fold_delete_previous_mu AList.update_conv')
qed

lemma map_of_filter_value:
  assumes "distinct (map fst al)"
  shows "map_of (filter (\<lambda>e. snd e \<noteq> v) al) k =
     (if map_of al k = Some v then None else map_of al k)"
proof -
  let ?r = "filter (\<lambda>e. snd e \<noteq> v) al"
  have d: "distinct (map fst ?r)"
    using assms by (simp add: distinct_map_filter)
  show ?thesis
  proof (cases "map_of al k")
    case None
    then have "k \<notin> fst ` set ?r"
      by (auto simp: map_of_eq_None_iff)
    then have "map_of ?r k = None" by (simp only: map_of_eq_None_iff not_False_eq_True)
    with None show ?thesis by simp
  next
    case (Some w)
    then have mem: "(k, w) \<in> set al" by (rule map_of_SomeD)
    show ?thesis
    proof (cases "w = v")
      case True
      have "k \<notin> fst ` set ?r"
      proof
        assume "k \<in> fst ` set ?r"
        then obtain w' where "(k, w') \<in> set al" "w' \<noteq> v" by auto
        with mem assms have "w' = w" by (auto dest: eq_key_imp_eq_value)
        with True \<open>w' \<noteq> v\<close> show False by simp
      qed
      then have "map_of ?r k = None" by (simp only: map_of_eq_None_iff not_False_eq_True)
      with Some True show ?thesis by simp
    next
      case False
      with mem have "(k, w) \<in> set ?r" by simp
      with d have "map_of ?r k = Some w" by (rule map_of_is_SomeI)
      with Some False show ?thesis by simp
    qed
  qed
qed

lemma update_one_value:
  "\<forall>e \<in> set al. snd e \<noteq> v \<Longrightarrow> length (filter (\<lambda>e. snd e = v) (AList.update k v al)) = 1"
  by (induction al) (auto simp: AList.update.simps)

text \<open>
  C1. A Connected event for patient \<open>patient_name\<close> and patch \<open>mac_address\<close>, on any
  mapping with unique keys and any intent mailbox: every entry of the patient is removed
  from \<open>patient_mapping\<close> and its patch gets the intent \<^verbatim>\<open>'remove'\<close>; then
  \<open>mac_address\<close> is bound to the patient and gets the intent \<^verbatim>\<open>'add'\<close>; every other
  entry of both mailboxes is as before. Afterwards exactly one entry of
  \<open>patient_mapping\<close> has the patient as its value, and the keys are still unique.
\<close>

theorem connect_update_spec:
  assumes "distinct (map fst (patient_mapping g))"
  shows "map_of (patient_mapping (connect_update patient_name mac_address g)) =
           (\<lambda>k. if k = mac_address then Some patient_name
                else if map_of (patient_mapping g) k = Some patient_name then None
                else map_of (patient_mapping g) k) \<and>
         map_of (mac_address_update (connect_update patient_name mac_address g)) =
           (\<lambda>k. if k = mac_address then Some ''add''
                else if map_of (patient_mapping g) k = Some patient_name then Some ''remove''
                else map_of (mac_address_update g) k) \<and>
         length (filter (\<lambda>e. snd e = patient_name)
                   (patient_mapping (connect_update patient_name mac_address g))) = 1 \<and>
         distinct (map fst (patient_mapping (connect_update patient_name mac_address g)))"
proof -
  let ?rest = "filter (\<lambda>e. snd e \<noteq> patient_name) (patient_mapping g)"
  have pm: "patient_mapping (connect_update patient_name mac_address g) =
            AList.update mac_address patient_name ?rest"
    using assms by (rule connect_update_pm)
  have d: "distinct (map fst ?rest)"
    using assms by (simp add: distinct_map_filter)
  have look: "map_of ?rest k =
        (if map_of (patient_mapping g) k = Some patient_name then None
         else map_of (patient_mapping g) k)" for k
    using assms by (rule map_of_filter_value)
  have "map_of (patient_mapping (connect_update patient_name mac_address g)) =
           (\<lambda>k. if k = mac_address then Some patient_name
                else if map_of (patient_mapping g) k = Some patient_name then None
                else map_of (patient_mapping g) k)"
    by (rule ext) (simp add: pm AList.update_conv' look)
  moreover
  have "map_of (mac_address_update (connect_update patient_name mac_address g)) =
           (\<lambda>k. if k = mac_address then Some ''add''
                else if map_of (patient_mapping g) k = Some patient_name then Some ''remove''
                else map_of (mac_address_update g) k)"
    by (rule ext) (rule connect_update_mu)
  moreover
  have "length (filter (\<lambda>e. snd e = patient_name)
                   (patient_mapping (connect_update patient_name mac_address g))) = 1"
    unfolding pm by (rule update_one_value) simp
  moreover
  have "distinct (map fst (patient_mapping (connect_update patient_name mac_address g)))"
    unfolding pm using d by (rule AList.distinct_update)
  ultimately show ?thesis by simp
qed

theorem connect_update_spec_witness:
  "distinct (map fst (patient_mapping patient_bound)) \<and>
   patient_mapping (connect_update ''P1'' ''BB:02'' patient_bound) =
     [(''CC:03'', ''P2''), (''BB:02'', ''P1'')] \<and>
   mac_address_update (connect_update ''P1'' ''BB:02'' patient_bound) =
     [(''AA:01'', ''remove''), (''BB:02'', ''add'')] \<and>
   length (filter (\<lambda>e. snd e = ''P1'')
             (patient_mapping (connect_update ''P1'' ''BB:02'' patient_bound))) = 1"
  using connect_update_spec [of patient_bound "''P1''" "''BB:02''"]
  by (simp add: patient_bound_def idle_def connect_update_def delete_previous_def)

section \<open>Decoding notifications\<close>

lemma slices_eq_groups:
  "0 < w \<Longrightarrow>
   map (\<lambda>index. py_slice xs (w * index) (w * (index + 1))) [0 ..< length xs div w] =
     spec_groups w xs"
proof (induction w xs rule: spec_groups.induct)
  case (1 w xs)
  show ?case
  proof (cases "length xs < w")
    case True
    then show ?thesis by (simp add: spec_groups.simps [of w xs])
  next
    case False
    with 1 have IH: "map (\<lambda>index. py_slice (drop w xs) (w * index) (w * (index + 1)))
                      [0 ..< length (drop w xs) div w] = spec_groups w (drop w xs)"
      by simp
    from False \<open>0 < w\<close> have n: "length xs div w = Suc ((length xs - w) div w)"
      by (simp add: le_div_geq)
    have shift: "py_slice xs (w * Suc i) (w * (Suc i + 1)) =
                 py_slice (drop w xs) (w * i) (w * (i + 1))" for i
      by (simp add: py_slice_def add.commute)
    have "map (\<lambda>index. py_slice xs (w * index) (w * (index + 1))) [0 ..< length xs div w] =
          py_slice xs 0 w #
          map (\<lambda>index. py_slice xs (w * Suc index) (w * (Suc index + 1)))
            [0 ..< (length xs - w) div w]"
      unfolding n by (simp add: upt_conv_Cons map_Suc_upt [symmetric] del: upt_Suc)
    also have "\<dots> = take w xs # spec_groups w (drop w xs)"
      using IH by (simp only: shift) (simp add: py_slice_def)
    finally show ?thesis
      using False \<open>0 < w\<close> by (simp add: spec_groups.simps [of w xs])
  qed
qed

lemma le_value_bounds: "0 \<le> le_value bs \<and> le_value bs < 2 ^ (8 * length bs)"
proof (induction bs)
  case Nil
  show ?case by simp
next
  case (Cons b bs)
  have b: "0 \<le> uint b" "uint b < 256"
    using uint_bounded [of b] by simp_all
  from Cons have "256 * le_value bs \<le> 256 * (2 ^ (8 * length bs) - 1)"
    by simp
  with b Cons show ?case
    by (simp add: power_add algebra_simps)
qed

lemma horner_le_value: "horner_sum uint 256 bs = le_value bs"
  by (induction bs) simp_all

lemma uint_rcat:
  "uint (word_rcat (rev bs) :: 'b::len word) = le_value bs mod 2 ^ LENGTH('b)"
  by (simp add: word_rcat_def horner_le_value uint_word_of_int)

lemma signed_take_bit_range:
  assumes "0 \<le> u" and "u < 2 ^ Suc n"
  shows "signed_take_bit n (u::int) = (if 2 ^ n \<le> u then u - 2 ^ Suc n else u)"
proof -
  have eq: "signed_take_bit n u = (u + 2 ^ n) mod 2 ^ Suc n - 2 ^ n"
    by (simp add: signed_take_bit_eq_take_bit_shift take_bit_eq_mod)
  show ?thesis
  proof (cases "2 ^ n \<le> u")
    case True
    have "(u + 2 ^ n) mod 2 ^ Suc n = (u + 2 ^ n - 2 ^ Suc n) mod 2 ^ Suc n"
      by (rule minus_mod_self2 [symmetric])
    also have "\<dots> = u + 2 ^ n - 2 ^ Suc n"
      using True assms by (intro mod_pos_pos_trivial) simp_all
    finally show ?thesis using True by (simp add: eq)
  next
    case False
    then have "(u + 2 ^ n) mod 2 ^ Suc n = u + 2 ^ n"
      using assms by (intro mod_pos_pos_trivial) simp_all
    with False show ?thesis by (simp add: eq)
  qed
qed

lemma int_from_bytes_16:
  assumes "length bs = 2"
  shows "int_from_bytes bs two_compl = spec_decode16 two_compl bs"
proof -
  have b: "0 \<le> le_value bs" "le_value bs < 2 ^ 16"
    using le_value_bounds [of bs] assms by simp_all
  then have u: "uint (word_rcat (rev bs) :: 16 word) = le_value bs"
    by (simp add: uint_rcat)
  have "sint (word_rcat (rev bs) :: 16 word) = signed_take_bit 15 (le_value bs)"
    by (simp add: sint_uint u)
  also have "\<dots> = (if 2 ^ 15 \<le> le_value bs then le_value bs - 2 ^ 16 else le_value bs)"
    using signed_take_bit_range [of "le_value bs" 15] b by simp
  finally show ?thesis
    using assms by (simp add: int_from_bytes_def spec_decode16_def u Let_def)
qed

lemma int_from_bytes_32:
  assumes "length bs = 4"
  shows "int_from_bytes bs two_compl = spec_decode32 two_compl bs"
proof -
  have b: "0 \<le> le_value bs" "le_value bs < 2 ^ 32"
    using le_value_bounds [of bs] assms by simp_all
  then have u: "uint (word_rcat (rev bs) :: 32 word) = le_value bs"
    by (simp add: uint_rcat)
  have "sint (word_rcat (rev bs) :: 32 word) = signed_take_bit 31 (le_value bs)"
    by (simp add: sint_uint u)
  also have "\<dots> = (if 2 ^ 31 \<le> le_value bs then le_value bs - 2 ^ 32 else le_value bs)"
    using signed_take_bit_range [of "le_value bs" 31] b by simp
  finally show ?thesis
    using assms by (simp add: int_from_bytes_def spec_decode32_def u Let_def)
qed

lemma width_cases: "map_of bytes_per_int char = Some w \<Longrightarrow> w = 2 \<or> w = 4"
  by (auto simp: bytes_per_int_def split: if_splits)

lemma length_spec_groups: "0 < w \<Longrightarrow> length (spec_groups w xs) = length xs div w"
  by (simp add: slices_eq_groups [symmetric])

lemma spec_groups_width: "g \<in> set (spec_groups w xs) \<Longrightarrow> length g = w"
proof (induction w xs rule: spec_groups.induct)
  case (1 w xs)
  then show ?case
    by (cases "w = 0 \<or> length xs < w") (auto simp: spec_groups.simps [of w xs])
qed

lemma convert_data_groups:
  assumes "map_of bytes_per_int char = Some w"
  shows "convert_data char data =
           Inr (map (spec_decode w (spec_signed char)) (spec_groups w data))"
proof -
  from assms have w: "w = 2 \<or> w = 4" by (rule width_cases)
  then have pos: "0 < w" by auto
  have dec: "int_from_bytes g (spec_signed char) = spec_decode w (spec_signed char) g"
    if "g \<in> set (spec_groups w data)" for g
    using w spec_groups_width [OF that]
    by (auto simp: spec_decode_def int_from_bytes_16 int_from_bytes_32)
  have "convert_data char data =
        Inr (map (\<lambda>g. int_from_bytes g (spec_signed char))
               (map (\<lambda>index. py_slice data (w * index) (w * (index + 1)))
                  [0 ..< length data div w]))"
    using assms by (simp add: convert_data_def spec_signed_def comp_def)
  also have "\<dots> = Inr (map (\<lambda>g. int_from_bytes g (spec_signed char)) (spec_groups w data))"
    using pos by (simp only: slices_eq_groups)
  also have "\<dots> = Inr (map (spec_decode w (spec_signed char)) (spec_groups w data))"
    using dec by simp
  finally show ?thesis .
qed

lemma concat_spec_groups:
  "0 < w \<Longrightarrow> concat (spec_groups w xs) = take (w * (length xs div w)) xs"
proof (induction w xs rule: spec_groups.induct)
  case (1 w xs)
  show ?case
  proof (cases "length xs < w")
    case True
    then show ?thesis by (simp add: spec_groups.simps [of w xs])
  next
    case False
    with 1 have IH: "concat (spec_groups w (drop w xs)) =
                     take (w * (length (drop w xs) div w)) (drop w xs)"
      by simp
    from False \<open>0 < w\<close> have n: "length xs div w = Suc ((length xs - w) div w)"
      by (simp add: le_div_geq)
    have "take (w * Suc k) xs = take w xs @ take (w * k) (drop w xs)" for k
      by (simp add: take_add [symmetric])
    with IH n False \<open>0 < w\<close> show ?thesis
      by (simp add: spec_groups.simps [of w xs])
  qed
qed

text \<open>
  C4. For a characteristic of element width \<open>w\<close> and a payload whose length is a
  multiple of \<open>w\<close>, \<open>convert_data\<close> returns one integer per consecutive group of
  \<open>w\<close> bytes (the groups make up the payload), each the little-endian fixed-width
  value of its group, two's complement for \<^verbatim>\<open>ppg\<close> and \<^verbatim>\<open>imu\<close>, unsigned otherwise.
  The witness is scenario S6: the \<^verbatim>\<open>imu\<close> bytes 00 00 FF FF 02 00 give 0, -1, 2.
\<close>

theorem convert_data_decodes:
  assumes "map_of bytes_per_int char = Some w"
    and "length data mod w = 0"
  shows "convert_data char data =
           Inr (map (spec_decode w (spec_signed char)) (spec_groups w data)) \<and>
         length (spec_groups w data) = length data div w \<and>
         concat (spec_groups w data) = data"
proof -
  from assms(1) have "w = 2 \<or> w = 4" by (rule width_cases)
  then have pos: "0 < w" by auto
  from assms(2) have "w * (length data div w) = length data"
    by (simp add: mod_0_imp_dvd)
  with concat_spec_groups [OF pos, of data] have "concat (spec_groups w data) = data"
    by simp
  with convert_data_groups [OF assms(1), of data] length_spec_groups [OF pos, of data]
  show ?thesis by simp
qed

theorem convert_data_decodes_witness:
  "map_of bytes_per_int ''imu'' = Some 2 \<and>
   length [0x00, 0x00, 0xFF, 0xFF, 0x02, 0x00 :: byte] mod 2 = 0 \<and>
   convert_data ''imu'' [0x00, 0x00, 0xFF, 0xFF, 0x02, 0x00] = Inr [0, - 1, 2] \<and>
   map (spec_decode 2 (spec_signed ''imu''))
     (spec_groups 2 [0x00, 0x00, 0xFF, 0xFF, 0x02, 0x00]) = [0, - 1, 2]"
  using convert_data_decodes [of "''imu''" 2 "[0x00, 0x00, 0xFF, 0xFF, 0x02, 0x00]"]
  by (simp add: bytes_per_int_def convert_data_def py_slice_def int_from_bytes_def)

text \<open>
  C3, as stated, fails: a payload whose length is no multiple of the element width is
  not dropped and nothing is logged. Three bytes on the \<^verbatim>\<open>imu\<close> handle (width 2) put a
  sample with one value into \<open>unprocessed_data\<close>.
\<close>

theorem callback_partial_payload_counterexample:
  "length [1, 0, 7 :: byte] mod 2 \<noteq> 0 \<and>
   map_of notify_handles 2 = Some ''imu'' \<and> map_of bytes_per_int ''imu'' = Some 2 \<and>
   callback ''AA:01'' 1000 2 [1, 0, 7] idle =
     Inr (idle\<lparr>unprocessed_data :=
                 [(''AA:01'', [\<lparr>ts = 1000, values_of = [(''imu'', [1])]\<rparr>])]\<rparr>)"
  by (simp add: callback_def notify_handles_def convert_data_def bytes_per_int_def
      py_slice_def int_from_bytes_def idle_def)

text \<open>
  C3, amended. For every notification on a handle of the table, whatever the length of
  the payload (a multiple of the element width \<open>w\<close> or not), the callback appends exactly
  one sample to \<open>unprocessed_data[address]\<close>; its values are the decoded leading
  \<open>length data div w\<close> whole groups, the trailing \<open>length data mod w\<close> bytes are
  ignored, and nothing is logged.
\<close>

theorem callback_appends_whole_groups:
  assumes "map_of notify_handles sender = Some char"
    and "map_of bytes_per_int char = Some w"
  shows "\<exists>g'. callback address timestamp sender data g = Inr g' \<and>
           map_of (unprocessed_data g') address =
             Some ((case map_of (unprocessed_data g) address of None \<Rightarrow> [] | Some old \<Rightarrow> old) @
                   [\<lparr>ts = timestamp,
                     values_of = [(char, map (spec_decode w (spec_signed char))
                                           (spec_groups w data))]\<rparr>]) \<and>
           length (spec_groups w data) = length data div w \<and>
           concat (spec_groups w data) = take (w * (length data div w)) data \<and>
           log_entries g' = log_entries g"
proof -
  from assms(2) have "w = 2 \<or> w = 4" by (rule width_cases)
  then have pos: "0 < w" by auto
  note cd = convert_data_groups [OF assms(2), of data]
  show ?thesis
    using assms(1) length_spec_groups [OF pos, of data] concat_spec_groups [OF pos, of data]
    by (cases "map_of (unprocessed_data g) address")
       (simp_all add: callback_def cd AList.update_conv')
qed

theorem callback_appends_whole_groups_witness:
  "map_of notify_handles 2 = Some ''imu'' \<and> map_of bytes_per_int ''imu'' = Some 2 \<and>
   length [1, 0, 7 :: byte] mod 2 \<noteq> 0 \<and>
   (\<exists>g'. callback ''AA:01'' 1000 2 [1, 0, 7] idle = Inr g' \<and>
      map_of (unprocessed_data g') ''AA:01'' =
        Some [\<lparr>ts = 1000, values_of = [(''imu'', [1])]\<rparr>] \<and>
      log_entries g' = [])"
proof -
  have h1: "map_of notify_handles 2 = Some ''imu''" by (simp add: notify_handles_def)
  have h2: "map_of bytes_per_int ''imu'' = Some 2" by (simp add: bytes_per_int_def)
  have v: "map (spec_decode 2 (spec_signed ''imu'')) (spec_groups 2 [1, 0, 7 :: byte]) = [1]"
    using convert_data_groups [OF h2, of "[1, 0, 7]"]
    by (simp add: convert_data_def bytes_per_int_def py_slice_def int_from_bytes_def)
  from callback_appends_whole_groups [OF h1 h2, of "''AA:01''" 1000 "[1, 0, 7]" idle]
  show ?thesis
    using h1 h2 by (auto simp: v idle_def)
qed

section \<open>The connected set\<close>

text \<open>
  \<open>disconnect\<close> removes the worker's request from \<open>mac_address_update\<close> and leaves
  \<open>connected_devices\<close> as it is, whatever the link answers.
\<close>

lemma stop_notifications_connected:
  "stop_notifications stop_notify address hs g = Inr g' \<Longrightarrow>
   connected_devices g' = connected_devices g"
proof (induction hs arbitrary: g)
  case Nil
  then show ?case by simp
next
  case (Cons h hs)
  then show ?case
    by (cases h) (auto split: option.splits if_splits)
qed

lemma disconnect_connected:
  "disconnect stop_notify device_disconnect address g = Inr g' \<Longrightarrow>
   connected_devices g' = connected_devices g"
  by (auto simp: disconnect_def split: sum.splits option.splits if_splits
      dest!: stop_notifications_connected)

text \<open>
  The janitor drops a \<^verbatim>\<open>'remove'\<close> request only when its patch is no key of
  \<open>connected_devices\<close>. A patch that was connected once stays a key, so a later
  request for it, with no worker left to serve it, is kept at every round.
\<close>

lemma janitor_keeps_request_of_departed_patch:
  "invalid_remove_request
     (idle\<lparr>connected_devices := [(''AA:01'', ''1.0.0'')],
           mac_address_update := [(''AA:01'', ''remove'')]\<rparr>) =
   Inr (idle\<lparr>connected_devices := [(''AA:01'', ''1.0.0'')],
             mac_address_update := [(''AA:01'', ''remove'')]\<rparr>)"
  by (simp add: invalid_remove_request_def get_key_from_value_def idle_def)

text \<open>
  C2 on the code. A worker completes the handshake with patch AA:01 (\<open>add_connected\<close>
  inserts the entry), the control plane sends Disconnected for the patch, and the worker
  runs the disconnect flow with every call on the link succeeding. The request is gone
  from \<open>mac_address_update\<close>, and AA:01 is still a key of \<open>connected_devices\<close> although
  its link is closed.
\<close>

theorem disconnect_keeps_connected_entry:
  "add_connected (Inr ''1.0.0'') ''AA:01'' idle =
     Inr (idle\<lparr>connected_devices := [(''AA:01'', ''1.0.0'')]\<rparr>) \<and>
   disconnect_update ''AA:01'' (idle\<lparr>connected_devices := [(''AA:01'', ''1.0.0'')]\<rparr>) =
     idle\<lparr>connected_devices := [(''AA:01'', ''1.0.0'')],
          mac_address_update := [(''AA:01'', ''remove'')]\<rparr> \<and>
   disconnect (\<lambda>handle. None) None ''AA:01''
       (idle\<lparr>connected_devices := [(''AA:01'', ''1.0.0'')],
             mac_address_update := [(''AA:01'', ''remove'')]\<rparr>) =
     Inr (idle\<lparr>connected_devices := [(''AA:01'', ''1.0.0'')]\<rparr>)"
  by (simp add: add_connected_def disconnect_update_def disconnect_def notify_handles_def
      idle_def)

section \<open>Pass-through mode\<close>

text \<open>
  C10. A round of \<open>no_data_processing\<close> that finds the raw mailbox non-empty makes
  \<open>processed_data\<close> the whole raw mailbox and empties \<open>unprocessed_data\<close>. The result
  does not depend on what \<open>processed_data\<close> held before: whatever was pending there is
  gone, and every item of the new \<open>processed_data\<close> is a raw sample.
\<close>

theorem no_data_processing_replaces:
  assumes "unprocessed_data g \<noteq> []"
  shows "processed_data (no_data_processing g) =
           map (\<lambda>kv. (fst kv, map Raw (snd kv))) (unprocessed_data g) \<and>
         unprocessed_data (no_data_processing g) = [] \<and>
         (\<forall>pending. no_data_processing (g\<lparr>processed_data := pending\<rparr>) = no_data_processing g) \<and>
         (\<forall>address items x. map_of (processed_data (no_data_processing g)) address = Some items \<longrightarrow>
            x \<in> set items \<longrightarrow> (\<exists>r. x = Raw r))"
proof -
  have "\<exists>r. x = Raw r"
    if "map_of (map (\<lambda>kv. (fst kv, map Raw (snd kv))) (unprocessed_data g)) address = Some items"
      and "x \<in> set items" for address items x
  proof -
    from that(1) have "(address, items) \<in> set (map (\<lambda>kv. (fst kv, map Raw (snd kv))) (unprocessed_data g))"
      by (rule map_of_SomeD)
    with that(2) show ?thesis by auto
  qed
  with assms show ?thesis
    by (simp add: no_data_processing_def Let_def)
qed

theorem no_data_processing_replaces_witness:
  "unprocessed_data sink_behind \<noteq> [] \<and>
   processed_data sink_behind =
     [(''AA:01'', [Processed pending_point]), (''CC:03'', [Processed pending_point])] \<and>
   processed_data (no_data_processing sink_behind) = [(''AA:01'', [Raw sample_a])] \<and>
   unprocessed_data (no_data_processing sink_behind) = []"
  using no_data_processing_replaces [of sink_behind]
  by (simp add: sink_behind_def idle_def)

section \<open>Trimming the rolling windows\<close>

lemma trim_window_trimmed:
  assumes "window d address = Some xs"
    and "window_update (\<lambda>m. m(address \<mapsto> xs)) d = d"
  shows "trim_window window window_update cap k address d =
           (None, window_update (\<lambda>m. m(address \<mapsto> trimmed cap k xs)) d)"
  using assms by (simp add: trim_window_def trimmed_def)

lemma map_upd_same: "m k = Some v \<Longrightarrow> m(k \<mapsto> v) = m"
  by (rule fun_upd_idem)

text \<open>
  C5, as stated, fails. With 301 temperature samples stored, \<open>delete_old_data\<close> keeps
  201 of them: not the newest \<open>cap/2 = 100\<close>, and more than the cap of 200.
\<close>

theorem delete_old_data_counterexample:
  "fst (delete_old_data ''AA:01'' long_temp) = None \<and>
   local_temp long_temp ''AA:01'' = Some (replicate 301 37) \<and>
   local_temp (snd (delete_old_data ''AA:01'' long_temp)) ''AA:01'' = Some (replicate 201 37) \<and>
   length (replicate 201 (37::real)) \<noteq> 200 div 2 \<and>
   \<not> length (replicate 201 (37::real)) \<le> 200"
  by (simp add: delete_old_data_def then_do_def trim_window_def trim_voltage_def
      long_temp_def steady_windows_def fresh_def)

text \<open>
  C5, amended. When the seven windows that \<open>delete_old_data\<close> reads without a guard are
  present, it returns normally and every window other than the ppg window is
  \<open>trimmed cap (cap/2)\<close> of what it was (imu raw and imu converted 2000/1000;
  temperature, voltage, activity, HR and SpO2 200/100; the voltage window only if the
  patch has one): a window longer than its cap loses its oldest \<open>cap/2\<close> elements and
  keeps the newest \<open>length - cap/2\<close>, a window within its cap is unchanged. So the
  length after the trim is at most the cap whenever the length before was at most
  \<open>cap + cap/2\<close>. Nothing is stated about the ppg window.
\<close>

theorem delete_old_data_trims:
  assumes "local_ppg d address = Some ppg"
    and "local_imu_raw d address = Some imu"
    and "local_temp d address = Some temp"
    and "local_activity_level d address = Some act"
    and "local_imu_converted d address = Some conv"
    and "local_HR d address = Some hr"
    and "local_SPO2 d address = Some spo2"
  shows "\<exists>d'. delete_old_data address d = (None, d') \<and>
           local_imu_raw d' address = Some (trimmed 2000 (2000 div 2) imu) \<and>
           local_temp d' address = Some (trimmed 200 (200 div 2) temp) \<and>
           local_voltage d' address =
             map_option (trimmed 200 (200 div 2)) (local_voltage d address) \<and>
           local_activity_level d' address = Some (trimmed 200 (200 div 2) act) \<and>
           local_imu_converted d' address = Some (trimmed 2000 (2000 div 2) conv) \<and>
           local_HR d' address = Some (trimmed 200 (200 div 2) hr) \<and>
           local_SPO2 d' address = Some (trimmed 200 (200 div 2) spo2) \<and>
           (\<forall>cap k (xs :: 'a list).
              trimmed cap k xs = (if cap < length xs then last_n (length xs - k) xs else xs) \<and>
              length (trimmed cap k xs) = (if cap < length xs then length xs - k else length xs) \<and>
              (length xs \<le> cap + k \<longrightarrow> length (trimmed cap k xs) \<le> cap))"
proof -
  have gen: "\<forall>cap k (xs :: 'a list).
              trimmed cap k xs = (if cap < length xs then last_n (length xs - k) xs else xs) \<and>
              length (trimmed cap k xs) = (if cap < length xs then length xs - k else length xs) \<and>
              (length xs \<le> cap + k \<longrightarrow> length (trimmed cap k xs) \<le> cap)"
  proof (intro allI)
    fix cap k and xs :: "'a list"
    have "drop k xs = drop (length xs - (length xs - k)) xs"
      by (cases "k \<le> length xs") simp_all
    then show "trimmed cap k xs = (if cap < length xs then last_n (length xs - k) xs else xs) \<and>
              length (trimmed cap k xs) = (if cap < length xs then length xs - k else length xs) \<and>
              (length xs \<le> cap + k \<longrightarrow> length (trimmed cap k xs) \<le> cap)"
      by (auto simp: trimmed_def last_n_def)
  qed
  have "\<exists>d'. delete_old_data address d = (None, d') \<and>
           local_imu_raw d' address = Some (trimmed 2000 (2000 div 2) imu) \<and>
           local_temp d' address = Some (trimmed 200 (200 div 2) temp) \<and>
           local_voltage d' address =
             map_option (trimmed 200 (200 div 2)) (local_voltage d address) \<and>
           local_activity_level d' address = Some (trimmed 200 (200 div 2) act) \<and>
           local_imu_converted d' address = Some (trimmed 2000 (2000 div 2) conv) \<and>
           local_HR d' address = Some (trimmed 200 (200 div 2) hr) \<and>
           local_SPO2 d' address = Some (trimmed 200 (200 div 2) spo2)"
    using assms
    by (cases "local_voltage d address")
       (simp_all add: delete_old_data_def then_do_def trim_window_trimmed trim_voltage_def
          map_upd_same)
  with gen show ?thesis by blast
qed

theorem delete_old_data_trims_witness:
  "local_ppg window_over_cap ''AA:01'' = Some (replicate 2000 (1, 4, 1)) \<and>
   local_imu_raw window_over_cap ''AA:01'' = Some (replicate 120 still_row) \<and>
   local_temp window_over_cap ''AA:01'' = Some (replicate 201 37) \<and>
   local_activity_level window_over_cap ''AA:01'' = Some [0] \<and>
   local_imu_converted window_over_cap ''AA:01'' = Some (replicate 120 (0, 0, 0, 0, 0, 0)) \<and>
   local_HR window_over_cap ''AA:01'' = Some [72] \<and>
   local_SPO2 window_over_cap ''AA:01'' = Some [98] \<and>
   length (replicate 201 (37::real)) \<le> 200 + 200 div 2 \<and>
   (\<exists>d'. delete_old_data ''AA:01'' window_over_cap = (None, d') \<and>
      local_temp d' ''AA:01'' = Some (replicate 101 37) \<and>
      local_imu_raw d' ''AA:01'' = Some (replicate 120 still_row) \<and>
      local_HR d' ''AA:01'' = Some [72])"
proof -
  have h: "local_ppg window_over_cap ''AA:01'' = Some (replicate 2000 (1, 4, 1))"
    "local_imu_raw window_over_cap ''AA:01'' = Some (replicate 120 still_row)"
    "local_temp window_over_cap ''AA:01'' = Some (replicate 201 37)"
    "local_activity_level window_over_cap ''AA:01'' = Some [0]"
    "local_imu_converted window_over_cap ''AA:01'' = Some (replicate 120 (0, 0, 0, 0, 0, 0))"
    "local_HR window_over_cap ''AA:01'' = Some [72]"
    "local_SPO2 window_over_cap ''AA:01'' = Some [98]"
    by (simp_all add: window_over_cap_def steady_windows_def)
  have t: "trimmed 200 (200 div 2) (replicate 201 (37::real)) = replicate 101 37"
    "trimmed 200 (200 div 2) [72::int] = [72]"
    "trimmed 2000 (2000 div 2) (replicate 120 still_row) = replicate 120 still_row"
    by (simp_all add: trimmed_def)
  from delete_old_data_trims [OF h] obtain d' where
    "delete_old_data ''AA:01'' window_over_cap = (None, d')"
    "local_temp d' ''AA:01'' = Some (trimmed 200 (200 div 2) (replicate 201 37))"
    "local_imu_raw d' ''AA:01'' = Some (trimmed 2000 (2000 div 2) (replicate 120 still_row))"
    "local_HR d' ''AA:01'' = Some (trimmed 200 (200 div 2) [72])"
    by blast
  with h t show ?thesis by simp
qed

section \<open>Activity detection\<close>

lemma collect_map_Inr: "collect (map (\<lambda>i. Inr (f i)) is) = Inr (map f is)"
  by (induction "is") simp_all

lemma py_index_back:
  "0 < i \<Longrightarrow> i \<le> length xs \<Longrightarrow> py_index xs (- int i) = Inr (xs ! (length xs - i))"
  by (simp add: py_index_def)

lemma py_index_zero: "xs \<noteq> [] \<Longrightarrow> py_index xs 0 = Inr (xs ! 0)"
  by (simp add: py_index_def)

lemma abs_xl_of_rows:
  assumes "119 \<le> length conv"
  shows "abs_xl_of conv = Inr (map (\<lambda>i. accel_norm (examined conv i)) [0 ..< 120])"
proof -
  from assms have ne: "conv \<noteq> []" by auto
  have "(case py_index conv (- int i) of Inl e \<Rightarrow> Inl e | Inr row \<Rightarrow> Inr (accel_norm row)) =
        Inr (accel_norm (examined conv i))" if "i \<in> set [0 ..< 120]" for i
  proof (cases "i = 0")
    case True
    with ne show ?thesis by (simp add: py_index_zero examined_def)
  next
    case False
    with that assms have "0 < i" "i \<le> length conv" by auto
    then show ?thesis using False by (simp add: py_index_back examined_def)
  qed
  then have "map (\<lambda>i. case py_index conv (- int i) of Inl e \<Rightarrow> Inl e
                       | Inr row \<Rightarrow> Inr (accel_norm row)) [0 ..< 120] =
             map (\<lambda>i. Inr (accel_norm (examined conv i))) [0 ..< 120]"
    by (intro map_cong refl)
  then show ?thesis
    unfolding abs_xl_of_def by (simp only: collect_map_Inr)
qed

lemma examined_rows:
  assumes "119 \<le> length xs"
  shows "map (examined xs) [0 ..< 120] = xs ! 0 # rev (last_n 119 xs)"
proof (rule nth_equalityI)
  show "length (map (examined xs) [0 ..< 120]) = length (xs ! 0 # rev (last_n 119 xs))"
    using assms by (simp add: last_n_def)
next
  fix i
  assume "i < length (map (examined xs) [0 ..< 120])"
  then have i: "i < 120" by simp
  show "map (examined xs) [0 ..< 120] ! i = (xs ! 0 # rev (last_n 119 xs)) ! i"
  proof (cases i)
    case 0
    then show ?thesis by (simp add: examined_def)
  next
    case (Suc j)
    with i have j: "j < 119" by simp
    with assms have "rev (last_n 119 xs) ! j = xs ! (length xs - Suc j)"
      by (simp add: last_n_def rev_nth)
    with Suc i show ?thesis
      by (simp add: examined_def del: upt_Suc)
  qed
qed

lemma gt_sqrt_12: "12 < sqrt x \<longleftrightarrow> 144 < x"
proof -
  have s: "sqrt 144 = 12" by (rule real_sqrt_unique) simp_all
  have "12 < sqrt x \<longleftrightarrow> sqrt 144 < sqrt x" by (simp only: s)
  also have "\<dots> \<longleftrightarrow> 144 < x" by (rule real_sqrt_less_iff)
  finally show ?thesis .
qed

lemma py_max_gt:
  "xs \<noteq> [] \<Longrightarrow> py_max xs = Inr (Max (set xs)) \<and> (c < Max (set xs) \<longleftrightarrow> (\<exists>x \<in> set xs. c < x))"
  by (simp add: py_max_def Max_gr_iff)

text \<open>
  What the code looks at: with at least 119 rows stored, \<open>imu_conversion\<close> returns
  normally, and the activity it appends is 1 exactly when row 0 of the window or one of
  its last 119 rows has an accelerometer magnitude above 12.
\<close>

lemma imu_conversion_activity:
  assumes "local_imu_raw d address = Some raw" and "119 \<le> length raw"
  shows "imu_conversion address d =
     (None, d\<lparr>local_imu_converted := (local_imu_converted d)(address \<mapsto> map scale_row raw),
               local_activity_level := dict_append (local_activity_level d) address
                 (if \<exists>r \<in> insert (raw ! 0) (set (last_n 119 raw)). 12 < accel_norm (scale_row r)
                  then 1 else 0)\<rparr>)"
proof -
  let ?conv = "map scale_row raw"
  from assms(2) have len: "119 \<le> length ?conv" and ne: "raw \<noteq> []" by auto
  from ne have "length raw - 120 < length raw" by (intro diff_less) simp_all
  then have ne': "last_n 120 ?conv \<noteq> []" by (simp add: last_n_def not_le)
  let ?abs = "map (\<lambda>i. accel_norm (examined ?conv i)) [0 ..< 120]"
  have ab: "abs_xl_of ?conv = Inr ?abs" using len by (rule abs_xl_of_rows)
  have "?abs = map accel_norm (map (examined ?conv) [0 ..< 120])" by (simp add: comp_def)
  also have "\<dots> = map accel_norm (?conv ! 0 # rev (last_n 119 ?conv))"
    using len by (simp only: examined_rows)
  finally have abs_eq: "?abs = map accel_norm (?conv ! 0 # rev (last_n 119 ?conv))" .
  have set_abs: "set ?abs = (\<lambda>r. accel_norm (scale_row r)) ` insert (raw ! 0) (set (last_n 119 raw))"
    unfolding abs_eq using ne by (auto simp: last_n_def drop_map nth_map image_iff)
  have "?abs \<noteq> []" by simp
  then have mx: "py_max ?abs = Inr (Max (set ?abs))"
    and gt: "12 < Max (set ?abs) \<longleftrightarrow> (\<exists>x \<in> set ?abs. 12 < x)"
    using py_max_gt [of ?abs 12] by blast+
  have gt': "12 < Max (set ?abs) \<longleftrightarrow>
             (\<exists>r \<in> insert (raw ! 0) (set (last_n 119 raw)). 12 < accel_norm (scale_row r))"
  proof -
    have "(\<exists>x \<in> set ?abs. 12 < x) \<longleftrightarrow>
          (\<exists>r \<in> insert (raw ! 0) (set (last_n 119 raw)). 12 < accel_norm (scale_row r))"
      by (subst set_abs) blast
    with gt show ?thesis by (rule trans)
  qed
  have cols: "py_max (map col3 (last_n 120 ?conv)) = Inr (Max (set (map col3 (last_n 120 ?conv))))"
    "py_max (map col4 (last_n 120 ?conv)) = Inr (Max (set (map col4 (last_n 120 ?conv))))"
    "py_max (map col5 (last_n 120 ?conv)) = Inr (Max (set (map col5 (last_n 120 ?conv))))"
    using ne' by (simp_all add: py_max_def)
  show ?thesis
    using assms(1) by (simp add: imu_conversion_def Let_def cols ab mx gt' del: upt_Suc set_map map_map)
qed


text \<open>
  C7 on the code. The loop reads \<^verbatim>\<open>conv[-i]\<close> for \<open>i = 0, ..., 119\<close>, and \<^verbatim>\<open>conv[-0]\<close> is
  the first row of the window, not one of the last 120. With 121 rows stored, the oldest
  a jolt and every one of the last 120 at rest (magnitude 0), the activity appended is 1,
  where the last 120 rows alone give 0.
\<close>

theorem imu_conversion_oldest_row:
  "local_imu_raw jolt_first ''AA:01'' = Some (jolt_row # replicate 120 still_row) \<and>
   map accel_norm (last_n 120 (map scale_row (jolt_row # replicate 120 still_row))) =
     replicate 120 0 \<and>
   fst (imu_conversion ''AA:01'' jolt_first) = None \<and>
   local_activity_level (snd (imu_conversion ''AA:01'' jolt_first)) ''AA:01'' = Some [1]"
proof -
  have raw: "local_imu_raw jolt_first ''AA:01'' = Some (jolt_row # replicate 120 still_row)"
    by (simp add: jolt_first_def)
  have j: "12 < accel_norm (scale_row jolt_row)"
    by (simp add: gt_sqrt_12 accel_norm_def scale_row_def jolt_row_def col3_def col4_def col5_def
        power2_eq_square)
  have rest: "map accel_norm (last_n 120 (map scale_row (jolt_row # replicate 120 still_row))) =
     replicate 120 0"
    by (simp add: last_n_def accel_norm_def scale_row_def still_row_def col3_def col4_def col5_def)
  have act: "local_activity_level jolt_first ''AA:01'' = None"
    by (simp add: jolt_first_def fresh_def)
  from imu_conversion_activity [OF raw] j act raw rest show ?thesis
    by (simp add: dict_append_def)
qed

section \<open>Blood oxygen\<close>

lemma np_argmax_first_max:
  assumes "m < length xs"
    and "\<forall>j<m. xs ! j < xs ! m"
    and "\<forall>j<length xs. xs ! j \<le> xs ! m"
  shows "np_argmax xs = Inr m"
proof -
  from assms(1) have ne: "xs \<noteq> []" by auto
  have mx: "Max (set xs) = xs ! m"
  proof (rule Max_eqI)
    show "finite (set xs)" by simp
    show "y \<le> xs ! m" if "y \<in> set xs" for y
      using that assms(3) by (auto simp: in_set_conv_nth)
    show "xs ! m \<in> set xs" using assms(1) by simp
  qed
  let ?tw = "takeWhile (\<lambda>x. x \<noteq> xs ! m) xs"
  have lower: "m \<le> length ?tw"
  proof (rule length_takeWhile_less_P_nth)
    show "xs ! i \<noteq> xs ! m" if "i < m" for i
      using that assms(2) by fastforce
    show "m \<le> length xs" using assms(1) by simp
  qed
  have upper: "\<not> m < length ?tw"
  proof
    assume lt: "m < length ?tw"
    then have "?tw ! m \<in> set ?tw" by (rule nth_mem)
    then have "?tw ! m \<noteq> xs ! m" by (auto dest: set_takeWhileD)
    moreover from lt have "?tw ! m = xs ! m" by (rule takeWhile_nth)
    ultimately show False by simp
  qed
  from lower upper have "length ?tw = m" by simp
  with ne mx show ?thesis by (simp add: np_argmax_def)
qed

lemma plot_bounds:
  "nat \<lfloor>0.75 * real SAMPLE_DURATION\<rfloor> = 15" "nat \<lfloor>3.5 * real SAMPLE_DURATION\<rfloor> = 70"
  by (simp_all add: SAMPLE_DURATION_def)

lemma dominant_bin_argmax:
  assumes "dominant_bin yf k"
  shows "np_argmax (map cmod (py_slice yf 15 70)) = Inr (k - 15)"
proof (rule np_argmax_first_max)
  let ?s = "map cmod (py_slice yf 15 70)"
  from assms have k: "15 \<le> k" "k < 70" "k < length yf"
    by (simp_all add: dominant_bin_def)
  have len: "length (py_slice yf 15 70) = min 55 (length yf - 15)" by (simp add: py_slice_def)
  have nth: "?s ! j = cmod (yf ! (15 + j))" if "j < length ?s" for j
  proof -
    from that have "j < length yf - 15" by (simp add: py_slice_def)
    then have "15 \<le> length yf" by arith
    with that show ?thesis by (simp add: py_slice_def)
  qed
  from k show m: "k - 15 < length ?s" by (simp add: len) arith
  show "\<forall>j<k - 15. ?s ! j < ?s ! (k - 15)"
  proof (intro allI impI)
    fix j assume j: "j < k - 15"
    with m have "j < length ?s" by simp
    with j k assms show "?s ! j < ?s ! (k - 15)"
      using nth [of j] nth [OF m] by (simp add: dominant_bin_def)
  qed
  show "\<forall>j<length ?s. ?s ! j \<le> ?s ! (k - 15)"
  proof (intro allI impI)
    fix j assume j: "j < length ?s"
    then have "j < 55" "j < length yf - 15" by (simp_all add: len)
    then have "15 + j < 70" "15 + j < length yf" by arith+
    with assms k have "cmod (yf ! (15 + j)) \<le> cmod (yf ! k)"
      by (simp add: dominant_bin_def)
    with j k show "?s ! j \<le> ?s ! (k - 15)"
      using nth [of j] nth [OF m] by simp
  qed
qed

lemma xf_nth: "k < 1000 \<Longrightarrow> py_index xf (int k) = Inr (real k / 20)"
  by (simp add: py_index_def xf_def SAMPLE_LENGTH_def SAMPLING_FREQUENCY_def SAMPLE_DURATION_def)

lemma py_index_nat: "k < length xs \<Longrightarrow> py_index xs (int k) = Inr (xs ! k)"
  by (simp add: py_index_def)

lemma py_round_mono_100:
  assumes "100 < x"
  shows "100 \<le> py_round x"
proof -
  from assms have "100 \<le> \<lfloor>x\<rfloor>" by (simp add: le_floor_iff)
  then show ?thesis by (simp add: py_round_def Let_def)
qed

lemma spo2_of_eq: "spo2_of R = min 100 (py_round (spo2_polynomial R))"
  by (simp add: spo2_of_def spo2_polynomial_def a_coeff_def b_coeff_def c_coeff_def Let_def min_def)


lemma ppg_analysis_normal:
  assumes "local_ppg d address = Some w"
    and "filtfilt_hr lib (map (real_of_int \<circ> red) (last_n 2000 w)) = Inr fr"
    and "filtfilt_hr lib (map (real_of_int \<circ> ir) (last_n 2000 w)) = Inr fi"
    and "filtfilt_hr lib (map (real_of_int \<circ> green) (last_n 2000 w)) = Inr fg"
    and "fft lib fg = Inr yg" and "fft lib fr = Inr yr" and "fft lib fi = Inr yi"
    and "dominant_bin yg k" and "k < length yr" and "k < length yi"
    and "sum_list (map red (last_n 2000 w)) \<noteq> 0"
    and "sum_list (map ir (last_n 2000 w)) \<noteq> 0"
    and "yi ! k \<noteq> 0"
  shows "ppg_analysis lib address d =
     (None, d\<lparr>local_HR := dict_append (local_HR d) address (py_round (60 * (real k / 20))),
               local_SPO2 := dict_append (local_SPO2 d) address
                 (spo2_of ((cmod (yr ! k) / (real_of_int (sum_list (map red (last_n 2000 w))) / 2000)) /
                           (cmod (yi ! k) / (real_of_int (sum_list (map ir (last_n 2000 w))) / 2000))))\<rparr>)"
proof -
  from assms(8) have k: "15 \<le> k" "k < 70" by (simp_all add: dominant_bin_def)
  then have "k < 1000" by simp
  then have f: "py_index xf (int k) = Inr (real k / 20)"
    by (rule xf_nth)
  from k have idx: "int (k - 15) + 15 = int k" "k - 15 + 15 = k" by simp_all
  have am: "np_argmax (map cmod (py_slice yg 15 70)) = Inr (k - 15)"
    using assms(8) by (rule dominant_bin_argmax)
  have ar: "py_index (map cmod yr) (int k) = Inr (cmod (yr ! k))"
    using assms(9) by (simp add: py_index_nat)
  have ai: "py_index (map cmod yi) (int k) = Inr (cmod (yi ! k))"
    using assms(10) by (simp add: py_index_nat)
  have sl: "SAMPLE_LENGTH = 2000"
    by (simp add: SAMPLE_LENGTH_def SAMPLING_FREQUENCY_def SAMPLE_DURATION_def)
  show ?thesis
    unfolding ppg_analysis_def plot_bounds sl Let_def
    using assms(11-13)
    by (simp add: assms(1-7) am idx f ar ai np_div_def)
qed

lemma last_n_recent:
  assumes "length recent = min n (length (older @ recent))"
  shows "last_n n (older @ recent) = recent"
proof (cases "n \<le> length (older @ recent)")
  case True
  with assms have "length recent = n" by simp
  then show ?thesis by (simp add: last_n_def)
next
  case False
  with assms have "older = []" by simp
  with False show ?thesis by (simp add: last_n_def)
qed

text \<open>
  C6. Let \<open>recent\<close> be the last 2000 rows of the ppg window (all of its rows when it
  holds fewer), let the filter and the transform return on the columns of \<open>recent\<close>,
  let \<open>k\<close> be the dominant heart-rate bin of the transformed green channel, \<open>AC_red\<close>
  and \<open>AC_ir\<close> the magnitudes of the transformed red and ir channels at \<open>k\<close>, and
  \<open>DC_red\<close>, \<open>DC_ir\<close> the means of the raw red and ir columns of \<open>recent\<close>, none of
  the three divisors being zero. Then \<open>ppg_analysis\<close> returns normally and appends to
  the SpO2 history of the patch the polynomial of
  \<open>R = (AC_red / DC_red) / (AC_ir / DC_ir)\<close>, rounded and clipped to at most 100.
  Whenever the polynomial exceeds 100 the stored value is 100, and for \<open>R = 1\<close> it is
  80. Floats are real numbers in this statement. The witness has a window of 2500 rows
  whose oldest 500 differ from the rest, and a window of 1001 rows.
\<close>

theorem ppg_analysis_spo2:
  assumes "local_ppg d address = Some (older @ recent)"
    and "length recent = min 2000 (length (older @ recent))"
    and "filtfilt_hr lib (map (real_of_int \<circ> red) recent) = Inr fr"
    and "filtfilt_hr lib (map (real_of_int \<circ> ir) recent) = Inr fi"
    and "filtfilt_hr lib (map (real_of_int \<circ> green) recent) = Inr fg"
    and "fft lib fg = Inr yg" and "fft lib fr = Inr yr" and "fft lib fi = Inr yi"
    and "dominant_bin yg k" and "k < length yr" and "k < length yi"
    and "AC_red = cmod (yr ! k)" and "AC_ir = cmod (yi ! k)"
    and "DC_red = mean (map red recent)" and "DC_ir = mean (map ir recent)"
    and "DC_red \<noteq> 0" and "DC_ir \<noteq> 0" and "AC_ir \<noteq> 0"
    and "R = (AC_red / DC_red) / (AC_ir / DC_ir)"
  shows "(\<exists>d'. ppg_analysis lib address d = (None, d') \<and>
            local_SPO2 d' address =
              Some ((case local_SPO2 d address of None \<Rightarrow> [] | Some history \<Rightarrow> history) @
                    [min 100 (py_round (spo2_polynomial R))])) \<and>
         (100 < spo2_polynomial R \<longrightarrow> min 100 (py_round (spo2_polynomial R)) = 100) \<and>
         min 100 (py_round (spo2_polynomial 1)) = 80"
proof -
  let ?n = "real (length recent)"
  let ?sr = "real_of_int (sum_list (map red recent))"
  let ?si = "real_of_int (sum_list (map ir recent))"
  from assms(2) have win: "last_n 2000 (older @ recent) = recent" by (rule last_n_recent)
  have dc: "DC_red = ?sr / ?n" "DC_ir = ?si / ?n"
    using assms(14,15) by (simp_all add: mean_def)
  with assms(16,17) have nz: "?sr \<noteq> 0" "?si \<noteq> 0" "?n \<noteq> 0" by auto
  then have nzi: "sum_list (map red (last_n 2000 (older @ recent))) \<noteq> 0"
    "sum_list (map ir (last_n 2000 (older @ recent))) \<noteq> 0"
    unfolding win by auto
  from assms(13,18) have nz': "yi ! k \<noteq> 0" by auto
  have h: "filtfilt_hr lib (map (real_of_int \<circ> red) (last_n 2000 (older @ recent))) = Inr fr"
    "filtfilt_hr lib (map (real_of_int \<circ> ir) (last_n 2000 (older @ recent))) = Inr fi"
    "filtfilt_hr lib (map (real_of_int \<circ> green) (last_n 2000 (older @ recent))) = Inr fg"
    using assms(3-5) by (simp_all only: win)
  have run: "ppg_analysis lib address d =
     (None, d\<lparr>local_HR := dict_append (local_HR d) address (py_round (60 * (real k / 20))),
               local_SPO2 := dict_append (local_SPO2 d) address
                 (spo2_of ((cmod (yr ! k) / (?sr / 2000)) / (cmod (yi ! k) / (?si / 2000))))\<rparr>)"
    using ppg_analysis_normal [OF assms(1) h assms(6-11) nzi nz'] by (simp only: win)
  have "(cmod (yr ! k) / (?sr / 2000)) / (cmod (yi ! k) / (?si / 2000)) =
        (cmod (yr ! k) / (?sr / ?n)) / (cmod (yi ! k) / (?si / ?n))"
    using nz by (simp add: field_simps)
  then have R: "(cmod (yr ! k) / (?sr / 2000)) / (cmod (yi ! k) / (?si / 2000)) = R"
    using assms(12,13,19) dc by simp
  have first: "\<exists>d'. ppg_analysis lib address d = (None, d') \<and>
            local_SPO2 d' address =
              Some ((case local_SPO2 d address of None \<Rightarrow> [] | Some history \<Rightarrow> history) @
                    [min 100 (py_round (spo2_polynomial R))])"
    unfolding run R by (simp add: dict_append_def spo2_of_eq split: option.split)
  have clip: "min 100 (py_round (spo2_polynomial R)) = 100" if "100 < spo2_polynomial R"
    using py_round_mono_100 [OF that] by simp
  have "py_round (spo2_polynomial 1) = 80"
    by (simp add: spo2_polynomial_def py_round_def Let_def)
  with first clip show ?thesis by simp
qed

theorem ppg_analysis_spo2_witness:
  "local_ppg steady_ppg ''AA:01'' = Some (replicate 500 (9, 9, 9) @ replicate 2000 (1, 4, 1)) \<and>
   length (replicate 2000 ((1, 4, 1) :: int row3)) =
     min 2000 (length (replicate 500 ((9, 9, 9) :: int row3) @ replicate 2000 (1, 4, 1))) \<and>
   dominant_bin (replicate 2000 1) 15 \<and>
   mean (map red (replicate 2000 (1, 4, 1))) = 1 \<and>
   mean (map ir (replicate 2000 (1, 4, 1))) = 4 \<and>
   100 < spo2_polynomial ((1 / 1) / (16 / 4)) \<and>
   (\<exists>d'. ppg_analysis toy_libs ''AA:01'' steady_ppg = (None, d') \<and>
      local_SPO2 d' ''AA:01'' = Some [100]) \<and>
   local_ppg after_trim ''AA:01'' = Some ([] @ replicate 1001 (1, 4, 1)) \<and>
   mean (map red (replicate 1001 (1, 4, 1))) = 1 \<and>
   mean (map ir (replicate 1001 (1, 4, 1))) = 4 \<and>
   (\<exists>d'. ppg_analysis toy_libs ''AA:01'' after_trim = (None, d') \<and>
      local_SPO2 d' ''AA:01'' = Some [100])"
proof -
  have big: "100 < spo2_polynomial ((1 / 1) / (16 / 4))"
    by (simp add: spo2_polynomial_def power2_eq_square)
  then have clip: "min 100 (py_round (spo2_polynomial ((1 / 1) / (16 / 4)))) = 100"
    using py_round_mono_100 by simp
  have inst: "\<exists>d'. ppg_analysis toy_libs ''AA:01'' d = (None, d') \<and>
      local_SPO2 d' ''AA:01'' = Some [100]"
    if h1: "local_ppg d ''AA:01'' = Some (older @ replicate n (1, 4, 1))"
      and h2: "length (replicate n ((1, 4, 1) :: int row3)) =
                 min 2000 (length (older @ replicate n (1, 4, 1)))"
      and n: "15 < n" and s: "local_SPO2 d ''AA:01'' = None"
    for d n older
  proof -
    let ?r = "replicate n (1, 4, 1) :: int row3 list"
    have h3: "filtfilt_hr toy_libs (map (real_of_int \<circ> red) ?r) = Inr (replicate n 1)"
      and h4: "filtfilt_hr toy_libs (map (real_of_int \<circ> ir) ?r) = Inr (replicate n 4)"
      and h5: "filtfilt_hr toy_libs (map (real_of_int \<circ> green) ?r) = Inr (replicate n 1)"
      by (simp_all add: toy_libs_def red_def ir_def green_def)
    have h6: "fft toy_libs (replicate n 1) = Inr (replicate n 1)"
      and h8: "fft toy_libs (replicate n 4) = Inr (replicate n 16)"
      by (simp_all add: toy_libs_def)
    have h9: "dominant_bin (replicate n 1) 15"
      using n by (simp add: dominant_bin_def)
    have h10: "15 < length (replicate n (1::complex))" "15 < length (replicate n (16::complex))"
      using n by simp_all
    have ac: "(1::real) = cmod (replicate n (1::complex) ! 15)"
      "(16::real) = cmod (replicate n (16::complex) ! 15)"
      using n by simp_all
    have dc: "(1::real) = mean (map red ?r)" "(4::real) = mean (map ir ?r)"
      using n by (simp_all add: mean_def red_def ir_def sum_list_replicate)
    from ppg_analysis_spo2 [OF h1 h2 h3 h4 h5 h6 h6 h8 h9 h10 ac dc, of "(1 / 1) / (16 / 4)"]
      clip s
    show ?thesis by simp
  qed
  have a: "local_ppg steady_ppg ''AA:01'' =
             Some (replicate 500 (9, 9, 9) @ replicate 2000 (1, 4, 1))"
    and b: "local_ppg after_trim ''AA:01'' = Some ([] @ replicate 1001 (1, 4, 1))"
    by (simp_all add: steady_ppg_def after_trim_def)
  have m: "mean (map red (replicate 2000 (1, 4, 1))) = 1"
    "mean (map ir (replicate 2000 (1, 4, 1))) = 4"
    "mean (map red (replicate 1001 (1, 4, 1))) = 1"
    "mean (map ir (replicate 1001 (1, 4, 1))) = 4"
    by (simp_all add: mean_def red_def ir_def sum_list_replicate)
  have d9: "dominant_bin (replicate 2000 1) 15" by (simp add: dominant_bin_def)
  from inst [OF a] inst [OF b] a b m d9 big show ?thesis
    by (simp add: steady_ppg_def after_trim_def fresh_def)
qed

section \<open>Rejected signals\<close>

lemma grows_refl [simp]: "grows m m"
  by (simp add: grows_def)

lemma grows_trans: "grows m m' \<Longrightarrow> grows m' m'' \<Longrightarrow> grows m m''"
  unfolding grows_def by (metis append.assoc)

lemma grows_dict_append [simp]: "grows m (dict_append m k v)"
  by (auto simp: grows_def dict_append_def split: option.splits)

lemma grows_extend [simp]:
  "grows m (m(k \<mapsto> (case m k of None \<Rightarrow> rows | Some w \<Rightarrow> w @ rows)))"
  by (auto simp: grows_def split: option.splits)

lemma retained_refl [simp]: "retained d d"
  by (simp add: retained_def)

lemma retained_trans: "retained d d' \<Longrightarrow> retained d' d'' \<Longrightarrow> retained d d''"
  unfolding retained_def by (blast intro: grows_trans)

lemma then_do_cases:
  assumes "then_do f g s = (r, s')"
  obtains e where "f s = (Some e, s')" and "r = Some e"
  | s1 where "f s = (None, s1)" and "g s1 = (r, s')"
  using assms by (auto simp: then_do_def split: prod.splits option.splits)

lemma for_each_rel:
  assumes step: "\<And>x s r s'. body x s = (r, s') \<Longrightarrow> Rel s s'"
    and refl: "\<And>s. Rel s s"
    and trans: "\<And>s s' s''. Rel s s' \<Longrightarrow> Rel s' s'' \<Longrightarrow> Rel s s''"
  shows "for_each body xs s = (r, s') \<Longrightarrow> Rel s s'"
proof (induction xs arbitrary: s)
  case Nil
  then show ?case by (simp add: refl)
next
  case (Cons x xs)
  obtain r1 s1 where b: "body x s = (r1, s1)" by (cases "body x s")
  then have 1: "Rel s s1" by (rule step)
  show ?case
  proof (cases r1)
    case None
    with Cons.prems b have "for_each body xs s1 = (r, s')" by simp
    then have "Rel s1 s'" by (rule Cons.IH)
    with 1 show ?thesis by (rule trans)
  next
    case (Some e)
    with Cons.prems b have "s' = s1" by simp
    with 1 show ?thesis by simp
  qed
qed

lemma split_value_retained: "split_value address cv d = (r, d') \<Longrightarrow> retained d d'"
  by (auto simp: split_value_def Let_def retained_def split: if_splits sum.splits list.splits)

lemma split_data_retained:
  assumes "split_data address d = (r, d')"
  shows "retained d d'"
proof -
  obtain r1 d1 where run: "for_each (\<lambda>datapoint. for_each (split_value address) (values_of datapoint))
             (local_data d) d = (r1, d1)"
    by (cases "for_each (\<lambda>datapoint. for_each (split_value address) (values_of datapoint))
             (local_data d) d")
  have inner: "retained s s'" if "for_each (split_value address) xs s = (q, s')" for xs s q s'
    using that
    by (rule for_each_rel [where Rel = retained, rotated 3])
       (auto intro: split_value_retained retained_trans)
  have "retained d d1"
    using run
    by (rule for_each_rel [where Rel = retained, rotated 3])
       (auto intro: inner retained_trans)
  moreover have "retained d1 d'"
    using assms run by (auto simp: split_data_def retained_def split: option.splits)
  ultimately show ?thesis by (rule retained_trans)
qed

lemma ppg_analysis_retained: "ppg_analysis lib address d = (r, d') \<Longrightarrow> retained d d'"
  by (auto simp: ppg_analysis_def Let_def retained_def
      split: option.splits sum.splits npfloat.splits)

lemma imu_conversion_retained: "imu_conversion address d = (r, d') \<Longrightarrow> retained d d'"
  by (auto simp: imu_conversion_def Let_def retained_def split: option.splits sum.splits)

lemma calc_battery_percentage_retained:
  "calc_battery_percentage address d = (r, d') \<Longrightarrow> retained d d'"
  by (auto simp: calc_battery_percentage_def retained_def
      split: option.splits sum.splits if_splits)

lemma heartpy_analysis_retained: "heartpy_analysis lib address d = (r, d') \<Longrightarrow> retained d d'"
  by (auto simp: heartpy_analysis_def retained_def split: option.splits sum.splits)


lemma lookup_last_error: "lookup_last m k = Inl e \<Longrightarrow> e = KeyError \<or> e = IndexError"
  by (auto simp: lookup_last_def py_last_def split: option.splits if_splits)

lemma write_back_error:
  "write_back address s = (Some e, s') \<Longrightarrow> e = KeyError \<or> e = IndexError"
  by (auto simp: write_back_def Let_def split: option.splits sum.splits
      dest: lookup_last_error)

lemma trim_window_error:
  "trim_window window window_update cap k address d = (Some e, d') \<Longrightarrow> e = KeyError"
  by (auto simp: trim_window_def split: option.splits)

lemma delete_old_data_error: "delete_old_data address d = (Some e, d') \<Longrightarrow> e = KeyError"
  unfolding delete_old_data_def
  by (auto elim!: then_do_cases dest: trim_window_error simp: trim_voltage_def split: if_splits)

lemma quiet_trans: "quiet s s' \<Longrightarrow> quiet s' s'' \<Longrightarrow> quiet s s''"
  by (auto simp: quiet_def intro: retained_trans)

lemma step_quiet:
  "on_dsp (split_data address) s = (r, s') \<Longrightarrow> quiet s s'"
  "on_dsp (ppg_analysis lib address) s = (r, s') \<Longrightarrow> quiet s s'"
  "on_dsp (imu_conversion address) s = (r, s') \<Longrightarrow> quiet s s'"
  "on_dsp (calc_battery_percentage address) s = (r, s') \<Longrightarrow> quiet s s'"
  "on_dsp (heartpy_analysis lib address) s = (r, s') \<Longrightarrow> quiet s s'"
  by (auto simp: on_dsp_def quiet_def split: prod.splits
      dest: split_data_retained ppg_analysis_retained imu_conversion_retained
        calc_battery_percentage_retained heartpy_analysis_retained)

lemma pipeline_bad_signal:
  assumes "pipeline lib address s = (Some BadSignalWarning, s')"
  shows "quiet s s'"
  using assms unfolding pipeline_def
proof (cases rule: then_do_cases)
  case (1 e)
  then show ?thesis by (auto intro: step_quiet)
next
  case (2 s1)
  from 2(1) have q1: "quiet s s1" by (rule step_quiet)
  from 2(2) show ?thesis
  proof (cases rule: then_do_cases)
    case (1 e)
    then have "quiet s1 s'" by (auto intro: step_quiet)
    with q1 show ?thesis by (rule quiet_trans)
  next
    case (2 s2)
    from 2(1) have "quiet s1 s2" by (rule step_quiet)
    with q1 have q2: "quiet s s2" by (rule quiet_trans)
    from 2(2) show ?thesis
    proof (cases rule: then_do_cases)
      case (1 e)
      then have "quiet s2 s'" by (auto intro: step_quiet)
      with q2 show ?thesis by (rule quiet_trans)
    next
      case (2 s3)
      from 2(1) have "quiet s2 s3" by (rule step_quiet)
      with q2 have q3: "quiet s s3" by (rule quiet_trans)
      from 2(2) show ?thesis
      proof (cases rule: then_do_cases)
        case (1 e)
        then have "quiet s3 s'"
          by (auto intro: step_quiet)
        with q3 show ?thesis by (rule quiet_trans)
      next
        case (2 s4)
        from 2(1) have "quiet s3 s4"
          by (rule step_quiet)
        with q3 have q4: "quiet s s4" by (rule quiet_trans)
        from 2(2) show ?thesis
        proof (cases rule: then_do_cases)
          case (1 e)
          then have "quiet s4 s'"
            by (auto intro: step_quiet)
          with q4 show ?thesis by (rule quiet_trans)
        next
          case (2 s5)
          from 2(2) show ?thesis
          proof (cases rule: then_do_cases)
            case (1 e)
            then show ?thesis by (auto dest: write_back_error)
          next
            case (2 s6)
            then show ?thesis
              by (auto simp: on_dsp_def split: prod.splits dest: delete_old_data_error)
          qed
        qed
      qed
    qed
  qed
qed


lemma retained_entered [simp]: "retained d (entered address batch d)"
  by (simp add: retained_def entered_def)

lemma heartpy_rejects:
  assumes "split_data address d0 = (None, d1)"
    and "ppg_analysis lib address d1 = (None, d2)"
    and "imu_conversion address d2 = (None, d3)"
    and "calc_battery_percentage address d3 = (None, d4)"
    and "local_ppg d4 address = Some w"
    and "heartpy lib (map (real_of_int \<circ> green) (last_n 2000 w)) = Inl BadSignalWarning"
  shows "pipeline lib address (g, d0) = (Some BadSignalWarning, (g, d4))"
  using assms by (simp add: pipeline_def then_do_def on_dsp_def heartpy_analysis_def)

lemma process_address_bad_signal:
  assumes "batch \<noteq> []"
    and "pipeline lib address (g, entered address batch d) = (Some BadSignalWarning, s')"
  shows "process_address lib (address, batch) (g, d) =
           (None, (g\<lparr>log_entries := log_entries g @ [address @ '' BadSignalWarning'']\<rparr>, snd s'))"
    and "retained d (snd s')"
proof -
  from assms(2) have q: "quiet (g, entered address batch d) s'"
    by (rule pipeline_bad_signal)
  then have g: "fst s' = g" and r: "retained (entered address batch d) (snd s')"
    by (simp_all add: quiet_def)
  from assms(1) obtain first rest where b: "batch = first # rest" by (cases batch) auto
  show "process_address lib (address, batch) (g, d) =
           (None, (g\<lparr>log_entries := log_entries g @ [address @ '' BadSignalWarning'']\<rparr>, snd s'))"
    using assms(2) g unfolding b
    by (simp add: process_address_def entered_def Let_def error_name_def)
  show "retained d (snd s')"
    using retained_entered r by (rule retained_trans)
qed

text \<open>What the steps before the pulse analysis leave behind when they return normally.\<close>

lemma split_value_histories:
  "split_value address cv d = (r, d') \<Longrightarrow>
   local_HR d' = local_HR d \<and> local_SPO2 d' = local_SPO2 d \<and>
   local_activity_level d' = local_activity_level d"
  by (auto simp: split_value_def Let_def split: if_splits sum.splits list.splits)

lemma split_data_histories:
  assumes "split_data address d = (r, d')"
  shows "local_HR d' = local_HR d \<and> local_SPO2 d' = local_SPO2 d \<and>
         local_activity_level d' = local_activity_level d"
proof -
  let ?same = "\<lambda>d d'. local_HR d' = local_HR d \<and> local_SPO2 d' = local_SPO2 d \<and>
                 local_activity_level d' = local_activity_level d"
  obtain r1 d1 where run: "for_each (\<lambda>datapoint. for_each (split_value address) (values_of datapoint))
             (local_data d) d = (r1, d1)"
    by (cases "for_each (\<lambda>datapoint. for_each (split_value address) (values_of datapoint))
             (local_data d) d")
  have inner: "?same s s'" if "for_each (split_value address) xs s = (q, s')" for xs s q s'
    using that
    by (rule for_each_rel [where Rel = ?same, rotated 3])
       (auto dest: split_value_histories)
  have "?same d d1"
    using run
    by (rule for_each_rel [where Rel = ?same, rotated 3]) (auto dest: inner)
  with assms run show ?thesis
    by (auto simp: split_data_def split: option.splits)
qed

lemma ppg_analysis_appends:
  assumes "ppg_analysis lib address d = (None, d')"
  shows "\<exists>hr spo2. d' = d\<lparr>local_HR := dict_append (local_HR d) address hr,
                            local_SPO2 := dict_append (local_SPO2 d) address spo2\<rparr>"
  using assms
  by (auto simp: ppg_analysis_def Let_def split: option.splits sum.splits npfloat.splits)

lemma imu_conversion_appends:
  assumes "imu_conversion address d = (None, d')"
  shows "\<exists>raw activity. local_imu_raw d address = Some raw \<and>
           d' = d\<lparr>local_imu_converted := (local_imu_converted d)(address \<mapsto> map scale_row raw),
                  local_activity_level :=
                    dict_append (local_activity_level d) address activity\<rparr>"
  using assms
  by (auto simp: imu_conversion_def Let_def split: option.splits sum.splits)

lemma calc_battery_percentage_frame:
  assumes "calc_battery_percentage address d = (r, d')"
  shows "local_HR d' = local_HR d" and "local_SPO2 d' = local_SPO2 d"
    and "local_activity_level d' = local_activity_level d"
    and "local_imu_raw d' = local_imu_raw d"
    and "local_imu_converted d' = local_imu_converted d"
  using assms
  by (auto simp: calc_battery_percentage_def split: option.splits sum.splits if_splits)

lemma dict_append_stored: "dict_append m k v k = Some (stored m k @ [v])"
  by (simp add: dict_append_def stored_def split: option.split)

text \<open>The round of the scenario, step by step.\<close>

lemma scenario_round:
  "split_data ''AA:01'' (entered ''AA:01'' [sample_a] steady_windows) = (None, round_split)"
  "ppg_analysis toy_libs ''AA:01'' round_split = (None, round_ppg)"
  "imu_conversion ''AA:01'' round_ppg = (None, round_imu)"
  "calc_battery_percentage ''AA:01'' round_imu = (None, round_imu)"
  "local_ppg round_imu ''AA:01'' = Some (replicate 2000 (1, 4, 1))"
  "heartpy toy_libs (map (real_of_int \<circ> green) (last_n 2000 (replicate 2000 (1, 4, 1)))) =
     Inl BadSignalWarning"
proof -
  let ?w = "replicate 2000 (1, 4, 1) :: int row3 list"
  show "split_data ''AA:01'' (entered ''AA:01'' [sample_a] steady_windows) = (None, round_split)"
    by (simp add: split_data_def split_value_def entered_def sample_a_def round_split_def
        steady_windows_def fresh_def dict_append_def)
  have win: "last_n 2000 ?w = ?w" by (simp add: last_n_def)
  have p: "local_ppg round_split ''AA:01'' = Some ?w"
    by (simp add: round_split_def steady_windows_def)
  have "ppg_analysis toy_libs ''AA:01'' round_split =
     (None, round_split\<lparr>local_HR := dict_append (local_HR round_split) ''AA:01''
                 (py_round (60 * (real 15 / 20))),
               local_SPO2 := dict_append (local_SPO2 round_split) ''AA:01''
                 (spo2_of ((cmod (replicate 2000 (1::complex) ! 15) /
                             (real_of_int (sum_list (map red (last_n 2000 ?w))) / 2000)) /
                           (cmod (replicate 2000 (16::complex) ! 15) /
                             (real_of_int (sum_list (map ir (last_n 2000 ?w))) / 2000))))\<rparr>)"
  proof (rule ppg_analysis_normal [OF p])
    show "filtfilt_hr toy_libs (map (real_of_int \<circ> red) (last_n 2000 ?w)) = Inr (replicate 2000 1)"
      and "filtfilt_hr toy_libs (map (real_of_int \<circ> ir) (last_n 2000 ?w)) = Inr (replicate 2000 4)"
      and "filtfilt_hr toy_libs (map (real_of_int \<circ> green) (last_n 2000 ?w)) = Inr (replicate 2000 1)"
      by (simp_all add: win toy_libs_def red_def ir_def green_def)
    show "fft toy_libs (replicate 2000 1) = Inr (replicate 2000 1)"
      and "fft toy_libs (replicate 2000 1) = Inr (replicate 2000 1)"
      and "fft toy_libs (replicate 2000 4) = Inr (replicate 2000 16)"
      by (simp_all add: toy_libs_def)
    show "dominant_bin (replicate 2000 1) 15"
      by (simp add: dominant_bin_def)
    show "15 < length (replicate 2000 (1::complex))" and "15 < length (replicate 2000 (16::complex))"
      by simp_all
    show "sum_list (map red (last_n 2000 ?w)) \<noteq> 0" and "sum_list (map ir (last_n 2000 ?w)) \<noteq> 0"
      by (simp_all add: win red_def ir_def sum_list_replicate)
    show "replicate 2000 (16::complex) ! 15 \<noteq> 0" by simp
  qed
  moreover have "py_round (60 * (real 15 / 20)) = 45"
    by (simp add: py_round_def Let_def)
  moreover have "spo2_of ((1 / (2000 / 2000)) / (16 / (8000 / 2000))) = 100"
    using py_round_mono_100 [of "spo2_polynomial (1 / 4)"]
    by (simp add: spo2_of_eq spo2_polynomial_def power2_eq_square)
  ultimately show "ppg_analysis toy_libs ''AA:01'' round_split = (None, round_ppg)"
    by (simp add: win red_def ir_def sum_list_replicate dict_append_def round_ppg_def
        round_split_def steady_windows_def fresh_def)
  have raw: "local_imu_raw round_ppg ''AA:01'' = Some (replicate 120 still_row)"
    by (simp add: round_ppg_def round_split_def steady_windows_def)
  have rest: "\<not> (\<exists>r \<in> insert (replicate 120 still_row ! 0)
                      (set (last_n 119 (replicate 120 still_row))). 12 < accel_norm (scale_row r))"
    by (simp add: last_n_def accel_norm_def scale_row_def still_row_def col3_def col4_def col5_def)
  show "imu_conversion ''AA:01'' round_ppg = (None, round_imu)"
    using imu_conversion_activity [OF raw] rest
    by (simp add: dict_append_def round_imu_def round_ppg_def round_split_def
        steady_windows_def fresh_def scale_row_def still_row_def)
  show "calc_battery_percentage ''AA:01'' round_imu = (None, round_imu)"
    by (simp add: calc_battery_percentage_def round_imu_def round_ppg_def round_split_def
        steady_windows_def fresh_def)
  show "local_ppg round_imu ''AA:01'' = Some ?w"
    by (simp add: round_imu_def round_ppg_def round_split_def steady_windows_def)
  show "heartpy toy_libs (map (real_of_int \<circ> green) (last_n 2000 ?w)) = Inl BadSignalWarning"
    by (simp add: toy_libs_def)
qed

text \<open>
  C9, as stated, fails: the iteration is not skipped as a whole. A round for patch AA:01
  in which the pulse analysis rejects the signal ends with a log entry and without a
  datapoint, but the steps before the rejection have run: the temperature of the batch
  is in its window, and the HR, SpO2 and activity histories each hold one more value
  than before the round.
\<close>

theorem bad_signal_round_counterexample:
  "heartpy toy_libs (map (real_of_int \<circ> green) (last_n 2000 (replicate 2000 (1, 4, 1)))) =
     Inl BadSignalWarning \<and>
   process_address toy_libs (''AA:01'', [sample_a]) (idle, steady_windows) =
     (None, (idle\<lparr>log_entries := [''AA:01 BadSignalWarning'']\<rparr>, round_imu)) \<and>
   local_HR steady_windows ''AA:01'' = Some [72] \<and>
   local_HR round_imu ''AA:01'' = Some [72, 45] \<and>
   local_SPO2 steady_windows ''AA:01'' = Some [98] \<and>
   local_SPO2 round_imu ''AA:01'' = Some [98, 100] \<and>
   local_activity_level steady_windows ''AA:01'' = Some [0] \<and>
   local_activity_level round_imu ''AA:01'' = Some [0, 0] \<and>
   local_temp steady_windows ''AA:01'' = None \<and>
   local_temp round_imu ''AA:01'' = Some [37]"
proof -
  have "pipeline toy_libs ''AA:01'' (idle, entered ''AA:01'' [sample_a] steady_windows) =
          (Some BadSignalWarning, (idle, round_imu))"
    by (rule heartpy_rejects [OF scenario_round])
  from process_address_bad_signal(1) [OF _ this] scenario_round(6) show ?thesis
    by (simp add: idle_def round_imu_def round_ppg_def round_split_def steady_windows_def
        fresh_def)
qed

text \<open>
  C9, amended. When the steps before the pulse analysis return normally and the pulse
  analysis rejects the green channel (\<^verbatim>\<open>BadSignalWarning\<close>), the rest of the iteration
  for the patch (\<open>write_back\<close>, \<open>delete_old_data\<close>) is skipped: the round ends normally
  with one more log entry and nothing else changed in the shared state, so no datapoint
  is appended to \<open>processed_data\<close>. The module state is the one the earlier steps
  left: no rolling window or history has lost anything it held, the converted imu
  window is the scaled image of the whole raw imu window, and the HR, SpO2 and activity
  histories of the patch each hold one value more than before the round.
\<close>

theorem bad_signal_abandons_round:
  assumes "batch \<noteq> []"
    and "split_data address (entered address batch d) = (None, d1)"
    and "ppg_analysis lib address d1 = (None, d2)"
    and "imu_conversion address d2 = (None, d3)"
    and "calc_battery_percentage address d3 = (None, d4)"
    and "local_ppg d4 address = Some w"
    and "heartpy lib (map (real_of_int \<circ> green) (last_n 2000 w)) = Inl BadSignalWarning"
  shows "process_address lib (address, batch) (g, d) =
           (None, (g\<lparr>log_entries := log_entries g @ [address @ '' BadSignalWarning'']\<rparr>, d4)) \<and>
         retained d d4 \<and>
         (\<exists>raw. local_imu_raw d4 address = Some raw \<and>
                 local_imu_converted d4 address = Some (map scale_row raw)) \<and>
         (\<exists>hr. local_HR d4 address = Some (stored (local_HR d) address @ [hr])) \<and>
         (\<exists>spo2. local_SPO2 d4 address = Some (stored (local_SPO2 d) address @ [spo2])) \<and>
         (\<exists>activity. local_activity_level d4 address =
                        Some (stored (local_activity_level d) address @ [activity]))"
proof -
  have p: "pipeline lib address (g, entered address batch d) = (Some BadSignalWarning, (g, d4))"
    using assms(2-7) by (rule heartpy_rejects)
  note run = process_address_bad_signal [OF assms(1) p]
  have s: "local_HR d1 = local_HR d" "local_SPO2 d1 = local_SPO2 d"
    "local_activity_level d1 = local_activity_level d"
    using split_data_histories [OF assms(2)] by (simp_all add: entered_def)
  from ppg_analysis_appends [OF assms(3)] obtain hr spo2 where
    d2: "d2 = d1\<lparr>local_HR := dict_append (local_HR d1) address hr,
                  local_SPO2 := dict_append (local_SPO2 d1) address spo2\<rparr>" by blast
  from imu_conversion_appends [OF assms(4)] obtain raw activity where
    raw: "local_imu_raw d2 address = Some raw"
    and d3: "d3 = d2\<lparr>local_imu_converted := (local_imu_converted d2)(address \<mapsto> map scale_row raw),
                  local_activity_level :=
                    dict_append (local_activity_level d2) address activity\<rparr>" by blast
  note d4 = calc_battery_percentage_frame [OF assms(5)]
  have "local_imu_raw d4 address = Some raw \<and>
        local_imu_converted d4 address = Some (map scale_row raw)"
    using raw by (simp add: d4 d3)
  moreover have "local_HR d4 address = Some (stored (local_HR d) address @ [hr])"
    by (simp add: d4 d3 d2 s dict_append_stored)
  moreover have "local_SPO2 d4 address = Some (stored (local_SPO2 d) address @ [spo2])"
    by (simp add: d4 d3 d2 s dict_append_stored)
  moreover have "local_activity_level d4 address =
                   Some (stored (local_activity_level d) address @ [activity])"
    by (simp add: d4 d3 d2 s dict_append_stored)
  ultimately show ?thesis using run by auto
qed

theorem bad_signal_abandons_round_witness:
  "[sample_a] \<noteq> [] \<and>
   split_data ''AA:01'' (entered ''AA:01'' [sample_a] steady_windows) = (None, round_split) \<and>
   ppg_analysis toy_libs ''AA:01'' round_split = (None, round_ppg) \<and>
   imu_conversion ''AA:01'' round_ppg = (None, round_imu) \<and>
   calc_battery_percentage ''AA:01'' round_imu = (None, round_imu) \<and>
   local_ppg round_imu ''AA:01'' = Some (replicate 2000 (1, 4, 1)) \<and>
   heartpy toy_libs (map (real_of_int \<circ> green) (last_n 2000 (replicate 2000 (1, 4, 1)))) =
     Inl BadSignalWarning \<and>
   process_address toy_libs (''AA:01'', [sample_a]) (idle, steady_windows) =
     (None, (idle\<lparr>log_entries := [''AA:01 BadSignalWarning'']\<rparr>, round_imu)) \<and>
   retained steady_windows round_imu \<and>
   processed_data (idle\<lparr>log_entries := [''AA:01 BadSignalWarning'']\<rparr>) = []"
  using bad_signal_abandons_round [OF _ scenario_round, of idle] scenario_round
  by (simp add: idle_def)

section \<open>Battery percentage\<close>

lemma for_each_inv:
  assumes "\<And>x s r s'. body x s = (r, s') \<Longrightarrow> P s \<Longrightarrow> P s'"
  shows "for_each body xs s = (r, s') \<Longrightarrow> P s \<Longrightarrow> P s'"
  by (rule for_each_rel [where Rel = "\<lambda>s s'. P s \<longrightarrow> P s'", rule_format])
     (auto dest: assms)

lemma battery_fresh: "battery_needs_voltage fresh"
  by (simp add: battery_needs_voltage_def fresh_def)

lemma split_value_battery:
  "split_value address cv d = (r, d') \<Longrightarrow> battery_needs_voltage d \<Longrightarrow> battery_needs_voltage d'"
  by (auto simp: split_value_def Let_def battery_needs_voltage_def dict_append_def
      split: if_splits sum.splits list.splits option.splits)

lemma split_data_battery:
  assumes "split_data address d = (r, d')" and "battery_needs_voltage d"
  shows "battery_needs_voltage d'"
proof -
  obtain r1 d1 where run: "for_each (\<lambda>datapoint. for_each (split_value address) (values_of datapoint))
             (local_data d) d = (r1, d1)"
    by (cases "for_each (\<lambda>datapoint. for_each (split_value address) (values_of datapoint))
             (local_data d) d")
  have inner: "battery_needs_voltage s'"
    if "for_each (split_value address) xs s = (q, s')" and "battery_needs_voltage s"
    for xs s q s'
    using that by (rule for_each_inv [rotated]) (rule split_value_battery)
  have "battery_needs_voltage d1"
    using run assms(2) by (rule for_each_inv [rotated]) (rule inner)
  with assms(1) run show ?thesis
    by (auto simp: split_data_def battery_needs_voltage_def split: option.splits)
qed

lemma ppg_analysis_battery:
  "ppg_analysis lib address d = (r, d') \<Longrightarrow> battery_needs_voltage d \<Longrightarrow> battery_needs_voltage d'"
  by (auto simp: ppg_analysis_def Let_def battery_needs_voltage_def
      split: option.splits sum.splits npfloat.splits)

lemma imu_conversion_battery:
  "imu_conversion address d = (r, d') \<Longrightarrow> battery_needs_voltage d \<Longrightarrow> battery_needs_voltage d'"
  by (auto simp: imu_conversion_def Let_def battery_needs_voltage_def
      split: option.splits sum.splits)

lemma calc_battery_percentage_battery:
  "calc_battery_percentage address d = (r, d') \<Longrightarrow> battery_needs_voltage d \<Longrightarrow>
   battery_needs_voltage d'"
  by (auto simp: calc_battery_percentage_def battery_needs_voltage_def
      split: option.splits sum.splits if_splits)

lemma heartpy_analysis_battery:
  "heartpy_analysis lib address d = (r, d') \<Longrightarrow> battery_needs_voltage d \<Longrightarrow>
   battery_needs_voltage d'"
  by (auto simp: heartpy_analysis_def battery_needs_voltage_def split: option.splits sum.splits)

lemma write_back_dsp: "write_back address s = (r, s') \<Longrightarrow> snd s' = snd s"
  by (auto simp: write_back_def Let_def split: option.splits sum.splits)


lemma then_do_preserves:
  assumes "\<forall>s r s'. f s = (r, s') \<longrightarrow> P s \<longrightarrow> P s'"
    and "\<forall>s r s'. g s = (r, s') \<longrightarrow> P s \<longrightarrow> P s'"
  shows "\<forall>s r s'. then_do f g s = (r, s') \<longrightarrow> P s \<longrightarrow> P s'"
  using assms by (auto simp: then_do_def split: prod.splits option.splits)

lemma trim_window_battery:
  "\<forall>d r d'. trim_window local_ppg local_ppg_update cap k address d = (r, d') \<longrightarrow>
     battery_needs_voltage d \<longrightarrow> battery_needs_voltage d'"
  "\<forall>d r d'. trim_window local_imu_raw local_imu_raw_update cap k address d = (r, d') \<longrightarrow>
     battery_needs_voltage d \<longrightarrow> battery_needs_voltage d'"
  "\<forall>d r d'. trim_window local_temp local_temp_update cap k address d = (r, d') \<longrightarrow>
     battery_needs_voltage d \<longrightarrow> battery_needs_voltage d'"
  "\<forall>d r d'. trim_voltage address d = (r, d') \<longrightarrow>
     battery_needs_voltage d \<longrightarrow> battery_needs_voltage d'"
  "\<forall>d r d'. trim_window local_activity_level local_activity_level_update cap k address d = (r, d') \<longrightarrow>
     battery_needs_voltage d \<longrightarrow> battery_needs_voltage d'"
  "\<forall>d r d'. trim_window local_imu_converted local_imu_converted_update cap k address d = (r, d') \<longrightarrow>
     battery_needs_voltage d \<longrightarrow> battery_needs_voltage d'"
  "\<forall>d r d'. trim_window local_HR local_HR_update cap k address d = (r, d') \<longrightarrow>
     battery_needs_voltage d \<longrightarrow> battery_needs_voltage d'"
  "\<forall>d r d'. trim_window local_SPO2 local_SPO2_update cap k address d = (r, d') \<longrightarrow>
     battery_needs_voltage d \<longrightarrow> battery_needs_voltage d'"
  by (auto simp: trim_window_def trim_voltage_def battery_needs_voltage_def
      split: option.splits if_splits)

lemma delete_old_data_battery:
  "\<forall>d r d'. delete_old_data address d = (r, d') \<longrightarrow>
     battery_needs_voltage d \<longrightarrow> battery_needs_voltage d'"
  unfolding delete_old_data_def
  by (intro then_do_preserves [where P = battery_needs_voltage] trim_window_battery)

lemma on_dsp_battery:
  assumes "\<forall>d r d'. f d = (r, d') \<longrightarrow> battery_needs_voltage d \<longrightarrow> battery_needs_voltage d'"
  shows "\<forall>s r s'. on_dsp f s = (r, s') \<longrightarrow>
           battery_needs_voltage (snd s) \<longrightarrow> battery_needs_voltage (snd s')"
  using assms by (auto simp: on_dsp_def split: prod.splits)

lemma pipeline_battery:
  "\<forall>s r s'. pipeline lib address s = (r, s') \<longrightarrow>
     battery_needs_voltage (snd s) \<longrightarrow> battery_needs_voltage (snd s')"
  unfolding pipeline_def
proof (intro then_do_preserves [where P = "\<lambda>s. battery_needs_voltage (snd s)"] on_dsp_battery)
  show "\<forall>s r s'. write_back address s = (r, s') \<longrightarrow>
          battery_needs_voltage (snd s) \<longrightarrow> battery_needs_voltage (snd s')"
    by (auto dest: write_back_dsp)
qed (blast intro: split_data_battery ppg_analysis_battery imu_conversion_battery
       calc_battery_percentage_battery heartpy_analysis_battery
       delete_old_data_battery [rule_format])+

text \<open>
  Only \<open>calc_battery_percentage\<close> writes a battery percentage, and only for a patch
  with a voltage window: from the start of the program on, a patch without a voltage
  sample has none.
\<close>

lemma process_address_battery:
  assumes "process_address lib entry s = (r, s')" and "battery_needs_voltage (snd s)"
  shows "battery_needs_voltage (snd s')"
proof (cases "snd entry")
  case Nil
  with assms show ?thesis by (simp add: process_address_def)
next
  case (Cons first rest)
  let ?d0 = "entered (fst entry) (snd entry) (snd s)"
  obtain r1 s1 where run: "pipeline lib (fst entry) (fst s, ?d0) = (r1, s1)"
    by (cases "pipeline lib (fst entry) (fst s, ?d0)")
  from assms(2) have "battery_needs_voltage (snd (fst s, ?d0))"
    by (simp add: battery_needs_voltage_def entered_def)
  with run have "battery_needs_voltage (snd s1)"
    using pipeline_battery by blast
  with assms(1) run Cons show ?thesis
    by (auto simp: process_address_def entered_def Let_def split: option.splits if_splits)
qed


text \<open>
  What the code computes: for a patch with a stored voltage sample the percentage is a
  function of the latest voltage alone and is not clipped; a patch with no voltage
  sample is left alone, and the datapoint that \<open>write_back\<close> then emits carries the
  default 100.
\<close>

lemma calc_battery_percentage_value:
  assumes "local_voltage d address = Some vs" and "vs \<noteq> []"
  shows "\<exists>d'. calc_battery_percentage address d = (None, d') \<and>
           local_battery_percentage d' address =
             Some (if 3650 < last vs then 12 + 0.176 * real_of_int (last vs - 3650)
                   else 0.0342 * real_of_int (last vs - 3650))"
  using assms by (simp add: calc_battery_percentage_def py_last_def)

lemma write_back_default_battery:
  assumes "local_voltage d address = None" and "battery_needs_voltage d"
    and "write_back address (g, snd (calc_battery_percentage address d)) = (None, s')"
  shows "calc_battery_percentage address d = (None, d)"
    and "\<exists>dps dp. map_of (processed_data (fst s')) address = Some (dps @ [Processed dp]) \<and>
           batteryPercentage dp = 100"
proof -
  show c: "calc_battery_percentage address d = (None, d)"
    using assms(1) by (simp add: calc_battery_percentage_def)
  from assms(1,2) have none: "local_battery_percentage d address = None"
    by (simp add: battery_needs_voltage_def)
  from assms(3) c have w: "write_back address (g, d) = (None, s')" by simp
  show "\<exists>dps dp. map_of (processed_data (fst s')) address = Some (dps @ [Processed dp]) \<and>
         batteryPercentage dp = 100"
  proof (cases "map_of (processed_data g) address")
    case None
    with w none show ?thesis
      by (auto simp: write_back_def Let_def AList.update_conv' split: option.splits sum.splits
          intro!: exI [of _ "[]"])
  next
    case (Some dps)
    with w none show ?thesis
      by (auto simp: write_back_def Let_def AList.update_conv' split: option.splits sum.splits)
  qed
qed

text \<open>
  C8 on the code. With 3650 mV as the latest voltage of patch AA:01 the comparison
  \<^verbatim>\<open>voltage > 3650\<close> is false, the second formula applies and the percentage stored
  is 0, where the specification gives 12 at this voltage. One millivolt above, the code
  stores 12.176; one below, it stores -0.0342: the curve steps from about 12 to 0 at
  3650 mV.
\<close>

theorem calc_battery_percentage_at_3650:
  "local_voltage (with_voltage 3650) ''AA:01'' = Some [3900, 3650] \<and>
   fst (calc_battery_percentage ''AA:01'' (with_voltage 3650)) = None \<and>
   local_battery_percentage (snd (calc_battery_percentage ''AA:01'' (with_voltage 3650))) ''AA:01'' =
     Some 0 \<and>
   (0::real) \<noteq> 12 \<and>
   local_battery_percentage (snd (calc_battery_percentage ''AA:01'' (with_voltage 3651))) ''AA:01'' =
     Some 12.176 \<and>
   local_battery_percentage (snd (calc_battery_percentage ''AA:01'' (with_voltage 3649))) ''AA:01'' =
     Some (- 0.0342) \<and>
   local_battery_percentage (snd (calc_battery_percentage ''AA:01'' (with_voltage 4150))) ''AA:01'' =
     Some 100"
  by (simp add: calc_battery_percentage_def with_voltage_def py_last_def fresh_def)

end
